theory Spec2Isabelle
  imports Complex_Main "HOL-Library.Word"
begin

section \<open>JavaScript values\<close>

text \<open>
  A JavaScript string is a sequence of UTF-16 code units. Literals of the source are
  written with \<open>lit\<close>, which maps every character of an ASCII literal to its code unit.
\<close>

type_synonym jsstring = "16 word list"

definition lit :: "string \<Rightarrow> jsstring" where
  "lit s = map of_char s"

text \<open>
  The value that \<^verbatim>\<open>response.json()\<close> resolves with. A JSON number is a double; it is
  kept as the rational it denotes, or as an infinity (a literal out of the double range).
  In an object, a later duplicate of a key overrides an earlier one.
\<close>

datatype jsnumber = Finite rat | PosInfinity | NegInfinity

datatype json =
    JNull
  | JBool bool
  | JNum jsnumber
  | JStr jsstring
  | JArr "json list"
  | JObj "(jsstring \<times> json) list"

text \<open>Truthiness (ToBoolean); \<^verbatim>\<open>undefined\<close> is \<open>None\<close>.\<close>

fun truthy :: "json \<Rightarrow> bool" where
  "truthy JNull = False"
| "truthy (JBool b) = b"
| "truthy (JNum n) = (n \<noteq> Finite 0)"
| "truthy (JStr s) = (s \<noteq> [])"
| "truthy (JArr _) = True"
| "truthy (JObj _) = True"

definition truthy_string :: "jsstring option \<Rightarrow> bool" where
  "truthy_string s = (s \<noteq> None \<and> s \<noteq> Some [])"

text \<open>A property that may be absent, as a condition.\<close>

definition truthy_opt :: "json option \<Rightarrow> bool" where
  "truthy_opt a = (case a of None \<Rightarrow> False | Some v \<Rightarrow> truthy v)"

text \<open>\<^verbatim>\<open>a || b\<close> where \<open>a\<close> may be undefined.\<close>

definition or_else :: "json option \<Rightarrow> json \<Rightarrow> json" where
  "or_else a b = (case a of None \<Rightarrow> b | Some v \<Rightarrow> if truthy v then v else b)"

text \<open>
  ToString, which the constructor of \<^verbatim>\<open>Error\<close> applies to its argument. \<open>None\<close> is
  the TypeError of a value that has no primitive. How a number is written is the
  platform's \<^verbatim>\<open>Number.prototype.toString\<close>, the parameter \<open>ns\<close>. An array is
  the join of its elements with commas, \<^verbatim>\<open>null\<close> elements giving the empty string.
  An object parsed from JSON is \<^verbatim>\<open>[object Object]\<close>, unless it has a property
  \<^verbatim>\<open>toString\<close> of its own: that is never a function, and the inherited
  \<^verbatim>\<open>valueOf\<close> (or an own one, no function either) gives no primitive.
\<close>

fun join_comma :: "jsstring list \<Rightarrow> jsstring" where
  "join_comma [] = []"
| "join_comma [x] = x"
| "join_comma (x # y # zs) = x @ 0x2C # join_comma (y # zs)"

fun to_string :: "(jsnumber \<Rightarrow> jsstring) \<Rightarrow> json \<Rightarrow> jsstring option" where
  "to_string ns JNull = Some (lit ''null'')"
| "to_string ns (JBool b) = Some (if b then lit ''true'' else lit ''false'')"
| "to_string ns (JNum n) = Some (ns n)"
| "to_string ns (JStr s) = Some s"
| "to_string ns (JArr xs) =
     map_option join_comma
       (those (map (\<lambda>x. if x = JNull then Some [] else to_string ns x) xs))"
| "to_string ns (JObj kvs) =
     (if map_of (rev kvs) (lit ''toString'') = None then Some (lit ''[object Object]'')
      else None)"

section \<open>API gateway client (src/lib/api.ts)\<close>

text \<open>
  What \<^verbatim>\<open>fetch\<close> gives back: it rejects (no response at all), or it resolves with a
  response. Of the response the client reads the status, \<^verbatim>\<open>ok\<close> (status 200 to 299),
  and the body through \<^verbatim>\<open>response.json()\<close>, which rejects with a SyntaxError when the
  body text is not JSON: \<open>body = None\<close>.
\<close>

record response =
  status :: nat
  body :: "json option"

datatype fetch_result = FetchRejected jsstring | FetchResolved response

definition ok :: "response \<Rightarrow> bool" where
  "ok r = (200 \<le> status r \<and> status r \<le> 299)"

text \<open>
  What \<^verbatim>\<open>request\<close> can throw. \<open>ApiError\<close> carries what an instance of the class
  holds (lines 11-20): \<^verbatim>\<open>status\<close> and \<^verbatim>\<open>code\<close> as they were passed, and the
  \<^verbatim>\<open>message\<close> that \<^verbatim>\<open>super(message)\<close> stored, a string. The other three are the
  failures of the platform that
  \<^verbatim>\<open>request\<close> lets through: the rejection of \<^verbatim>\<open>fetch\<close>, the rejection of
  \<^verbatim>\<open>response.json()\<close>, and the TypeError of reading a property of \<^verbatim>\<open>null\<close>.
\<close>

datatype failure =
    ApiError nat json jsstring
  | TypeError
  | SyntaxError
  | NetworkError jsstring

text \<open>
  \<^verbatim>\<open>data.error\<close> and \<^verbatim>\<open>data.message\<close>: reading a property of \<^verbatim>\<open>null\<close> throws; an
  object gives its own property of that name, or undefined; a string, a number, a boolean
  and an array have no property named \<^verbatim>\<open>error\<close> or \<^verbatim>\<open>message\<close>.
\<close>

fun get_prop :: "json \<Rightarrow> jsstring \<Rightarrow> failure + json option" where
  "get_prop JNull k = Inl TypeError"
| "get_prop (JObj kvs) k = Inr (map_of (rev kvs) k)"
| "get_prop _ k = Inr None"

text \<open>
  The constructor of \<^verbatim>\<open>ApiError\<close> (lines 12-19): \<^verbatim>\<open>super(message)\<close> converts the
  message to a string, which can throw; the two other arguments are stored as they are.
\<close>

definition new_ApiError :: "(jsnumber \<Rightarrow> jsstring) \<Rightarrow> nat \<Rightarrow> json \<Rightarrow> json \<Rightarrow> failure" where
  "new_ApiError ns st code message =
     (case to_string ns message of None \<Rightarrow> TypeError | Some m \<Rightarrow> ApiError st code m)"

text \<open>
  \<^verbatim>\<open>request\<close>, lines 45-60, from the moment \<^verbatim>\<open>fetch\<close> settles: the body is parsed
  first, the status is looked at second.
\<close>

definition request :: "(jsnumber \<Rightarrow> jsstring) \<Rightarrow> fetch_result \<Rightarrow> failure + json" where
  "request ns f =
     (case f of
        FetchRejected m \<Rightarrow> Inl (NetworkError m)
      | FetchResolved r \<Rightarrow>
          (case body r of
             None \<Rightarrow> Inl SyntaxError
           | Some data \<Rightarrow>
               if \<not> ok r then
                 (case get_prop data (lit ''error'') of
                    Inl e \<Rightarrow> Inl e
                  | Inr err \<Rightarrow>
                      (case get_prop data (lit ''message'') of
                         Inl e \<Rightarrow> Inl e
                       | Inr msg \<Rightarrow>
                           Inl (new_ApiError ns (status r)
                                  (or_else err (JStr (lit ''UnknownError'')))
                                  (or_else msg (JStr (lit ''An error occurred''))))))
               else Inr data))"

section \<open>Session store (AuthProvider, src/unnamed/part_000)\<close>

text \<open>
  An awaited call settles with the typed result or with what was thrown. In a
  \<^verbatim>\<open>catch\<close> the source only asks whether the thrown value is an \<^verbatim>\<open>Error\<close> and, if
  so, reads its message.
\<close>

datatype thrown = ErrorObject jsstring | OtherValue

datatype 'a settled = Fulfilled 'a | Rejected thrown

text \<open>
  The provider's four state variables and the \<^verbatim>\<open>localStorage\<close> item
  \<^verbatim>\<open>iavoqado_token\<close>. \<open>None\<close> is \<^verbatim>\<open>null\<close>.
\<close>

record me_data =
  me_user :: json
  me_organization :: json

record auth =
  stored :: "jsstring option"
  user :: "json option"
  organization :: "json option"
  token :: "jsstring option"
  isLoading :: bool

definition auth_initial :: "jsstring option \<Rightarrow> auth" where
  "auth_initial item =
     \<lparr>stored = item, user = None, organization = None, token = None, isLoading = True\<rparr>"

text \<open>
  The three handlers of the chain \<^verbatim>\<open>authApi.me(storedToken).then(..).catch(..).finally(..)\<close>
  (lines 41-55): each takes the settled promise before it and the state, and gives the
  settled promise after it and the state. With a result of the declared type none of
  the handlers throws. (A result that is \<^verbatim>\<open>null\<close> would make the first handler throw
  at \<^verbatim>\<open>data.user\<close>, after \<^verbatim>\<open>setToken\<close>; the second handler then runs as for a
  rejection and overwrites the token.)
\<close>

definition restore_then :: "jsstring \<Rightarrow> me_data settled \<times> auth \<Rightarrow> unit settled \<times> auth" where
  "restore_then storedToken p =
     (case p of
        (Fulfilled d, a) \<Rightarrow>
          (Fulfilled (),
           a\<lparr>token := Some storedToken, user := Some (me_user d),
             organization := Some (me_organization d)\<rparr>)
      | (Rejected e, a) \<Rightarrow> (Rejected e, a))"

definition restore_catch :: "unit settled \<times> auth \<Rightarrow> unit settled \<times> auth" where
  "restore_catch p =
     (case p of
        (Fulfilled u, a) \<Rightarrow> (Fulfilled u, a)
      | (Rejected e, a) \<Rightarrow>
          (Fulfilled (),
           a\<lparr>stored := None, token := None, user := None, organization := None\<rparr>))"

definition restore_finally :: "unit settled \<times> auth \<Rightarrow> unit settled \<times> auth" where
  "restore_finally p = (case p of (r, a) \<Rightarrow> (r, a\<lparr>isLoading := False\<rparr>))"

text \<open>
  The mount effect (lines 36-59). \<open>me\<close> is how \<^verbatim>\<open>authApi.me\<close> settles; it is only
  called when the stored item is a non-empty string.
\<close>

definition restore :: "me_data settled \<Rightarrow> auth \<Rightarrow> unit settled \<times> auth" where
  "restore me a =
     (case stored a of
        None \<Rightarrow> (Fulfilled (), a\<lparr>isLoading := False\<rparr>)
      | Some storedToken \<Rightarrow>
          if storedToken = [] then (Fulfilled (), a\<lparr>isLoading := False\<rparr>)
          else restore_finally (restore_catch (restore_then storedToken (me, a))))"

section \<open>Conversation session (src/components/chat/ChatInterface.tsx)\<close>

datatype role = User | Assistant

text \<open>
  \<^verbatim>\<open>DisplayMessage\<close> (lines 30-32 over \<^verbatim>\<open>ChatMessage\<close> of api.ts), the answer of
  \<^verbatim>\<open>/query/ask\<close> and a persisted message (\<^verbatim>\<open>ConversationMessage\<close> of api.ts).
\<close>

record message =
  msg_id :: "jsstring option"
  role :: role
  content :: jsstring
  sql :: "jsstring option"
  data :: "json list option"
  error_text :: "jsstring option"
  timestamp :: jsstring
  tokens :: "(jsnumber \<times> jsnumber) option"
  costUsd :: "jsnumber option"
  source :: "jsstring option"

record ChatResponse =
  success :: bool
  answer :: jsstring
  response_sql :: "jsstring option"
  response_data :: "json list option"
  confidence :: "jsnumber option"
  conversationId :: jsstring
  response_tokens :: "(jsnumber \<times> jsnumber) option"
  response_costUsd :: "jsnumber option"
  response_source :: "jsstring option"

record ConversationMessage =
  cm_id :: jsstring
  cm_role :: role
  cm_content :: jsstring
  cm_sql :: "jsstring option"
  cm_data :: "json list option"
  cm_source :: "jsstring option"
  cm_tokens :: "jsnumber \<times> jsnumber"
  cm_costUsd :: jsnumber
  cm_createdAt :: jsstring

text \<open>
  The props the component reads in its logic. \<^verbatim>\<open>initialMessages\<close> is an array, and
  React compares the dependencies of an effect by identity: \<open>initialMessages_ref\<close>
  tells the array objects apart, two arrays with the same content included.
\<close>

record props =
  conversationId_prop :: "jsstring option"
  initialMessages :: "ConversationMessage list"
  initialMessages_ref :: nat

text \<open>
  The component's state: the four state variables, the dependencies of the last run of
  the effect of lines 50-68 (\<open>None\<close> before the first run), and the number of calls of
  \<^verbatim>\<open>chatApi.ask\<close>.
\<close>

record chat =
  messages :: "message list"
  input :: jsstring
  isLoading_chat :: bool
  currentConversationId :: "jsstring option"
  synced :: "(jsstring option \<times> nat) option"
  asked :: nat

text \<open>
  The effect of lines 50-68. It runs after the render that mounts the component and
  after every render in which \<^verbatim>\<open>conversationId\<close> or \<^verbatim>\<open>initialMessages\<close> differs
  from the render before: it replaces the log by the mapped initial messages and the
  conversation identifier by the prop.
\<close>

definition mapped :: "ConversationMessage \<Rightarrow> message" where
  "mapped m =
     \<lparr>msg_id = Some (cm_id m), role = cm_role m, content = cm_content m,
      sql = (if truthy_string (cm_sql m) then cm_sql m else None), data = cm_data m,
      error_text = None, timestamp = cm_createdAt m, tokens = Some (cm_tokens m),
      costUsd = Some (cm_costUsd m),
      source = (if truthy_string (cm_source m) then cm_source m else None)\<rparr>"

definition hydrate :: "ConversationMessage list \<Rightarrow> message list" where
  "hydrate ims = (if length ims > 0 then map mapped ims else [])"

definition sync_effect :: "props \<Rightarrow> chat \<Rightarrow> chat" where
  "sync_effect pr c =
     (let deps = (conversationId_prop pr, initialMessages_ref pr) in
      if synced c = Some deps then c
      else c\<lparr>messages := hydrate (initialMessages pr),
             currentConversationId := conversationId_prop pr, synced := Some deps\<rparr>)"

text \<open>
  \<^verbatim>\<open>String.prototype.trim\<close> removes the WhiteSpace and LineTerminator code units of
  ECMAScript from both ends.
\<close>

definition isWhiteSpace :: "16 word \<Rightarrow> bool" where
  "isWhiteSpace c =
     (c = 0x0009 \<or> c = 0x000A \<or> c = 0x000B \<or> c = 0x000C \<or> c = 0x000D \<or> c = 0x0020 \<or>
      c = 0x00A0 \<or> c = 0x1680 \<or> (0x2000 \<le> c \<and> c \<le> 0x200A) \<or> c = 0x2028 \<or>
      c = 0x2029 \<or> c = 0x202F \<or> c = 0x205F \<or> c = 0x3000 \<or> c = 0xFEFF)"

definition trim :: "jsstring \<Rightarrow> jsstring" where
  "trim s = rev (dropWhile isWhiteSpace (rev (dropWhile isWhiteSpace s)))"

definition userMessage :: "jsstring \<Rightarrow> jsstring \<Rightarrow> message" where
  "userMessage question now =
     \<lparr>msg_id = None, role = User, content = question, sql = None, data = None,
      error_text = None, timestamp = now, tokens = None, costUsd = None, source = None\<rparr>"

definition assistantMessage :: "ChatResponse \<Rightarrow> jsstring \<Rightarrow> message" where
  "assistantMessage r now =
     \<lparr>msg_id = None, role = Assistant, content = answer r, sql = response_sql r,
      data = response_data r, error_text = None, timestamp = now,
      tokens = response_tokens r, costUsd = response_costUsd r,
      source = response_source r\<rparr>"

definition fallback_text :: jsstring where
  "fallback_text =
     lit ''Lo siento, ocurrio un error al procesar tu pregunta. Por favor intenta de nuevo.''"

definition errorMessage :: "thrown \<Rightarrow> jsstring \<Rightarrow> message" where
  "errorMessage e now =
     \<lparr>msg_id = None, role = Assistant, content = fallback_text, sql = None, data = None,
      error_text = Some (case e of ErrorObject m \<Rightarrow> m | OtherValue \<Rightarrow> lit ''Error desconocido''),
      timestamp = now, tokens = None, costUsd = None, source = None\<rparr>"

text \<open>
  \<^verbatim>\<open>sendMessage\<close> up to its \<^verbatim>\<open>await\<close> (lines 78-91): the guard, then the three state
  updates and the call of \<^verbatim>\<open>chatApi.ask\<close>.
\<close>

definition sendMessage_returns_early :: "jsstring \<Rightarrow> chat \<Rightarrow> bool" where
  "sendMessage_returns_early question c = (trim question = [] \<or> isLoading_chat c)"

definition sendMessage_begin :: "jsstring \<Rightarrow> jsstring \<Rightarrow> chat \<Rightarrow> chat" where
  "sendMessage_begin question now c =
     (if sendMessage_returns_early question c then c
      else c\<lparr>messages := messages c @ [userMessage question now], input := [],
             isLoading_chat := True, asked := asked c + 1\<rparr>)"

text \<open>
  \<^verbatim>\<open>sendMessage\<close> after its \<^verbatim>\<open>await\<close> (lines 93-122): the state updates of the
  component and, in order, the calls of the two callbacks of the parent. \<open>cid\<close> is the
  \<^verbatim>\<open>currentConversationId\<close> of the render that created the function: the value the
  call was made with. Whatever is thrown inside the \<^verbatim>\<open>try\<close>, by the call or by
  reading a response that is \<^verbatim>\<open>null\<close>, arrives in the \<^verbatim>\<open>catch\<close>: the case
  \<open>Rejected\<close>.
\<close>

datatype chat_callback = OnConversationCreated jsstring | OnMessageSent

definition sendMessage_settle ::
  "jsstring option \<Rightarrow> ChatResponse settled \<Rightarrow> jsstring \<Rightarrow> chat \<Rightarrow> chat_callback list \<times> chat" where
  "sendMessage_settle cid outcome now c =
     (case outcome of
        Fulfilled r \<Rightarrow>
          (let created = (\<not> truthy_string cid \<and> conversationId r \<noteq> []);
               c1 = (if created then c\<lparr>currentConversationId := Some (conversationId r)\<rparr>
                     else c)
           in ((if created then [OnConversationCreated (conversationId r)] else []) @
               [OnMessageSent],
               c1\<lparr>messages := messages c1 @ [assistantMessage r now],
                  isLoading_chat := False\<rparr>))
      | Rejected e \<Rightarrow>
          ([], c\<lparr>messages := messages c @ [errorMessage e now], isLoading_chat := False\<rparr>))"

text \<open>
  One whole call in a component that was given no callbacks (both are optional props)
  and whose props stay as they are, so that nothing happens between or after the two
  halves.
\<close>

definition sendMessage ::
  "jsstring \<Rightarrow> jsstring \<Rightarrow> ChatResponse settled \<Rightarrow> jsstring \<Rightarrow> chat \<Rightarrow> chat" where
  "sendMessage question t1 outcome t2 c =
     (if sendMessage_returns_early question c then c
      else snd (sendMessage_settle (currentConversationId c) outcome t2
                  (sendMessage_begin question t1 c)))"

section \<open>Chat page (ChatPage, lines 227-525 of src/app/onboarding/review/page.tsx)\<close>

text \<open>
  The page that mounts the component, from the moment it shows it (a token, the ready
  check done). Of its state: the selected conversation, the messages loaded for it (with
  the identity of the array), the key of the sidebar, the dependency of the last run of
  the load effect (the token does not change while the component is shown), the
  identifiers \<^verbatim>\<open>conversationsApi.get\<close> was called with, and the component.
\<close>

record chat_page =
  selectedConversationId :: "jsstring option"
  conversationMessages :: "ConversationMessage list"
  conversationMessages_ref :: nat
  sidebarKey :: nat
  load_deps :: "jsstring option option"
  gets :: "jsstring list"
  interface :: chat

text \<open>Lines 495-503: \<^verbatim>\<open>conversationId={selectedConversationId || undefined}\<close>.\<close>

definition props_of :: "chat_page \<Rightarrow> props" where
  "props_of pg =
     \<lparr>conversationId_prop =
        (if truthy_string (selectedConversationId pg) then selectedConversationId pg else None),
      initialMessages = conversationMessages pg,
      initialMessages_ref = conversationMessages_ref pg\<rparr>"

text \<open>
  The load effect (lines 317-335), run when the selection differs from its last run:
  without a selection it sets the messages to a new empty array, with one it requests
  the conversation.
\<close>

definition load_effect :: "chat_page \<Rightarrow> chat_page" where
  "load_effect pg =
     (if load_deps pg = Some (selectedConversationId pg) then pg
      else if \<not> truthy_string (selectedConversationId pg)
      then pg\<lparr>conversationMessages := [],
              conversationMessages_ref := conversationMessages_ref pg + 1,
              load_deps := Some (selectedConversationId pg)\<rparr>
      else pg\<lparr>gets := gets pg @ [the (selectedConversationId pg)],
              load_deps := Some (selectedConversationId pg)\<rparr>)"

text \<open>
  One render and the effects after it, the component's before the page's; the effect of
  the component sees the props of this render, the state update of the load effect
  shows in the next. A second render follows when an effect has set state; after it
  nothing is left to do (lemma \<open>chat_render_stable\<close>).
\<close>

definition chat_render_once :: "chat_page \<Rightarrow> chat_page" where
  "chat_render_once pg = load_effect (pg\<lparr>interface := sync_effect (props_of pg) (interface pg)\<rparr>)"

definition chat_render :: "chat_page \<Rightarrow> chat_page" where
  "chat_render pg = chat_render_once (chat_render_once pg)"

definition chat_mount :: chat_page where
  "chat_mount =
     chat_render
       \<lparr>selectedConversationId = None, conversationMessages = [],
        conversationMessages_ref = 0, sidebarKey = 0, load_deps = None, gets = [],
        interface = \<lparr>messages = [], input = [], isLoading_chat = False,
                     currentConversationId = None, synced = None, asked = 0\<rparr>\<rparr>"

text \<open>The two callbacks the page passes (lines 344-353).\<close>

definition handle_callback :: "chat_callback \<Rightarrow> chat_page \<Rightarrow> chat_page" where
  "handle_callback cb pg =
     (case cb of
        OnConversationCreated i \<Rightarrow>
          pg\<lparr>selectedConversationId := Some i, sidebarKey := sidebarKey pg + 1\<rparr>
      | OnMessageSent \<Rightarrow> pg\<lparr>sidebarKey := sidebarKey pg + 1\<rparr>)"

text \<open>
  What can happen to the page: \<^verbatim>\<open>sendMessage\<close> is called and reaches its
  \<^verbatim>\<open>await\<close>; an awaited \<^verbatim>\<open>chatApi.ask\<close> settles, in a call made with the
  conversation identifier \<open>cid\<close>; the sidebar selects a conversation or none (lines 385,
  and 81 and 187 of ConversationsSidebar.tsx) or starts a new one (lines 338-341); a
  \<^verbatim>\<open>conversationsApi.get\<close> resolves (line 326) or rejects (lines 327-331). The state
  updates an event makes, those of the component and those of the callbacks of the page
  it calls, are applied in one render (the client components of the \<^verbatim>\<open>app\<close>
  directory run on React 18 or later, which batches them); the effects run after it.
\<close>

datatype chat_event =
    AskBegin jsstring jsstring
  | AskSettle "jsstring option" "ChatResponse settled" jsstring
  | Select "jsstring option"
  | NewConversation
  | LoadResolved "ConversationMessage list"
  | LoadRejected

definition chat_step :: "chat_page \<Rightarrow> chat_event \<Rightarrow> chat_page" where
  "chat_step pg e =
     (case e of
        AskBegin question now \<Rightarrow>
          if sendMessage_returns_early question (interface pg) then pg
          else chat_render (pg\<lparr>interface := sendMessage_begin question now (interface pg)\<rparr>)
      | AskSettle cid outcome now \<Rightarrow>
          (let (cbs, c) = sendMessage_settle cid outcome now (interface pg)
           in chat_render (fold handle_callback cbs (pg\<lparr>interface := c\<rparr>)))
      | Select i \<Rightarrow> chat_render (pg\<lparr>selectedConversationId := i\<rparr>)
      | NewConversation \<Rightarrow>
          chat_render (pg\<lparr>selectedConversationId := None, conversationMessages := [],
                           conversationMessages_ref := conversationMessages_ref pg + 1\<rparr>)
      | LoadResolved ms \<Rightarrow>
          chat_render (pg\<lparr>conversationMessages := ms,
                           conversationMessages_ref := conversationMessages_ref pg + 1\<rparr>)
      | LoadRejected \<Rightarrow> chat_render (pg\<lparr>selectedConversationId := None\<rparr>))"


text \<open>
  One whole call of \<^verbatim>\<open>sendMessage\<close> on the page, with nothing else happening between
  its two halves.
\<close>

definition ChatPage_sendMessage ::
  "jsstring \<Rightarrow> jsstring \<Rightarrow> ChatResponse settled \<Rightarrow> jsstring \<Rightarrow> chat_page \<Rightarrow> chat_page" where
  "ChatPage_sendMessage question t1 outcome t2 pg =
     (if sendMessage_returns_early question (interface pg) then pg
      else chat_step (chat_step pg (AskBegin question t1))
             (AskSettle (currentConversationId (interface pg)) outcome t2))"


section \<open>Processing status (src/lib/api.ts, src/components/onboarding/ProcessingStatus.tsx)\<close>

text \<open>
  The fields of \<^verbatim>\<open>ProcessingStatus\<close> that the page and the component read. \<open>None\<close> is
  an absent field. The clarification payload and the validation errors and warnings are
  only tested for presence and length and handed on to child components, so their
  content stays the JSON received.
\<close>

datatype status_error = StringError jsstring | ObjectError "jsstring option"

record progress =
  current :: jsnumber
  total :: jsnumber
  percentage :: jsnumber

record processing_status =
  stage :: "jsstring option"
  progress :: "progress option"
  error :: "status_error option"
  clarification :: "json option"
  validationErrors :: "json list option"
  validationWarnings :: "json list option"

definition stageOrder :: "jsstring list" where
  "stageOrder =
     [lit ''uploading'', lit ''pre_validation'', lit ''analyzing_structure'',
      lit ''awaiting_confirmation'', lit ''processing_data'', lit ''semantic_analysis'',
      lit ''needs_clarification'', lit ''validating_quality'', lit ''generating_examples'',
      lit ''ready'']"

text \<open>\<^verbatim>\<open>Array.prototype.indexOf\<close>: the first position, or -1.\<close>

fun indexOf :: "'a list \<Rightarrow> 'a \<Rightarrow> int" where
  "indexOf [] x = -1"
| "indexOf (y # ys) x =
     (if y = x then 0 else (let i = indexOf ys x in if i < 0 then -1 else i + 1))"

text \<open>Line 98.\<close>

definition currentStageIndex :: "processing_status \<Rightarrow> int" where
  "currentStageIndex st =
     (if truthy_string (stage st) then indexOf stageOrder (the (stage st)) else 0)"

text \<open>
  Line 99. The source computes in doubles: a division and a multiplication, each
  rounded. \<open>fl\<close> is that rounding; the numbers are the rationals the doubles denote.
  \<^verbatim>\<open>Math.round\<close> (line 148) rounds to the nearest integer, halves upwards.
\<close>

definition overallProgress :: "(rat \<Rightarrow> rat) \<Rightarrow> processing_status \<Rightarrow> rat" where
  "overallProgress fl st =
     fl (fl (of_int (currentStageIndex st + 1) / of_nat (length stageOrder)) * 100)"

definition Math_round :: "rat \<Rightarrow> int" where
  "Math_round x = \<lfloor>x + 1 / 2\<rfloor>"

text \<open>\<^verbatim>\<open>status.error\<close> as a condition (page line 43, component line 101).\<close>

definition truthy_error :: "status_error option \<Rightarrow> bool" where
  "truthy_error e =
     (case e of None \<Rightarrow> False | Some (StringError s) \<Rightarrow> s \<noteq> [] | Some (ObjectError m) \<Rightarrow> True)"

text \<open>Lines 103-105.\<close>

definition errorMessage_of :: "status_error \<Rightarrow> jsstring" where
  "errorMessage_of e =
     (case e of
        StringError s \<Rightarrow> s
      | ObjectError m \<Rightarrow> if truthy_string m then the m else lit ''Error desconocido'')"

text \<open>
  What the component returns (lines 101-127 and 129 onwards): the error card, whose only
  button calls \<^verbatim>\<open>onError\<close> when clicked, or the progress card with the rounded
  percentage as label, the overall bar and the optional bar of the current step.
\<close>

datatype card =
    ErrorCard jsstring
  | ProgressCard int rat "progress option"

definition ProcessingStatus_render :: "(rat \<Rightarrow> rat) \<Rightarrow> processing_status \<Rightarrow> card" where
  "ProcessingStatus_render fl st =
     (if truthy_error (error st) then ErrorCard (errorMessage_of (the (error st)))
      else ProgressCard (Math_round (overallProgress fl st)) (overallProgress fl st) (progress st))"

text \<open>
  The body of the effect of lines 88-96: the callbacks it calls, in order. The page
  passes all three callbacks.
\<close>

datatype callback = OnComplete | OnClarificationNeeded

definition completion_effect :: "processing_status \<Rightarrow> callback list" where
  "completion_effect st =
     (if stage st = Some (lit ''ready'') then [OnComplete] else []) @
     (if stage st = Some (lit ''needs_clarification'') then [OnClarificationNeeded] else [])"

text \<open>
  React runs an effect after the render that mounts the component and after every later
  render in which a dependency differs from the render before. The dependencies of this
  effect are \<^verbatim>\<open>status.stage\<close> and two callbacks that the page memoises
  (\<^verbatim>\<open>useCallback\<close>, page lines 64-76), so only the stage can differ. An instance of the
  component is the stage of its last render, \<open>None\<close> before the first.
\<close>

definition ProcessingStatus_effect ::
  "jsstring option option \<Rightarrow> processing_status \<Rightarrow> callback list \<times> jsstring option option" where
  "ProcessingStatus_effect prev st =
     (if prev = Some (stage st) then [] else completion_effect st, Some (stage st))"

text \<open>One instance rendered with a sequence of statuses: all the callbacks it calls.\<close>

fun feed :: "jsstring option option \<Rightarrow> processing_status list \<Rightarrow> callback list" where
  "feed prev [] = []"
| "feed prev (st # sts) =
     fst (ProcessingStatus_effect prev st) @ feed (snd (ProcessingStatus_effect prev st)) sts"

section \<open>Processing page (src/app/onboarding/processing/page.tsx)\<close>

text \<open>Lines 40-43.\<close>

definition shouldContinuePolling :: "processing_status \<Rightarrow> bool" where
  "shouldContinuePolling result =
     (stage result \<noteq> Some (lit ''ready'') \<and>
      stage result \<noteq> Some (lit ''needs_clarification'') \<and>
      \<not> truthy_error (error result))"

text \<open>
  The polling effect between its runs: nothing pending, a status request awaited, or the
  2000 ms timer armed. The cleanup of the effect (lines 58-61) clears the timer and makes
  an awaited response a no-op: both give \<open>Idle\<close>.
\<close>

datatype poller = Idle | InFlight | Scheduled

text \<open>
  The page: the token from the session store, the three state variables, and the
  bookkeeping of React: the dependencies of the last run of the polling effect and the
  mounted instance of the component (\<open>None\<close> when it is not mounted). The counters
  record what the page does: calls of \<^verbatim>\<open>getProcessingStatus\<close>, of \<^verbatim>\<open>handleComplete\<close>
  and of \<^verbatim>\<open>handleError\<close>.
\<close>

record page =
  page_token :: "jsstring option"
  page_status :: "processing_status option"
  page_error :: "jsstring option"
  showClarification :: bool
  poller :: poller
  poll_deps :: "(jsstring option \<times> bool) option"
  mounted :: "jsstring option option"
  fetches :: nat
  completions :: nat
  errorCallbacks :: nat

text \<open>What the page returns (lines 123-132 and 173-236).\<close>

datatype view =
    LoginRequired
  | TransportErrorView jsstring
  | Connecting
  | ValidationErrorsView "json list" "json list option"
  | ClarificationView json
  | ProgressView processing_status

definition ProcessingPage_view :: "page \<Rightarrow> view" where
  "ProcessingPage_view p =
     (if \<not> truthy_string (page_token p) then LoginRequired
      else if truthy_string (page_error p) then TransportErrorView (the (page_error p))
      else (case page_status p of
              None \<Rightarrow> Connecting
            | Some st \<Rightarrow>
                if validationErrors st \<noteq> None \<and> validationErrors st \<noteq> Some []
                then ValidationErrorsView (the (validationErrors st)) (validationWarnings st)
                else if showClarification p \<and> truthy_opt (clarification st)
                then ClarificationView (the (clarification st))
                else ProgressView st))"

text \<open>
  One render and the effects after it, children before parents: the effect of the
  component if the view holds it, then the polling effect (lines 24-62) if the token or
  \<^verbatim>\<open>showClarification\<close> differ from its last run: its cleanup, then its body, which
  requests the status unless there is no token or the clarification is shown. Last, the
  state updates that the callbacks of the component asked for.
\<close>

definition apply_callback :: "callback \<Rightarrow> page \<Rightarrow> page" where
  "apply_callback cb p =
     (case cb of
        OnComplete \<Rightarrow> p\<lparr>completions := completions p + 1\<rparr>
      | OnClarificationNeeded \<Rightarrow> p\<lparr>showClarification := True\<rparr>)"

definition poll_effect :: "page \<Rightarrow> page" where
  "poll_effect p =
     (let deps = (page_token p, showClarification p) in
      if poll_deps p = Some deps then p
      else if \<not> truthy_string (page_token p) \<or> showClarification p
      then p\<lparr>poller := Idle, poll_deps := Some deps\<rparr>
      else p\<lparr>poller := InFlight, poll_deps := Some deps, fetches := fetches p + 1\<rparr>)"

definition render_once :: "page \<Rightarrow> page" where
  "render_once p =
     (case ProcessingPage_view p of
        ProgressView st \<Rightarrow>
          (let (cbs, inst) = ProcessingStatus_effect (mounted p) st
           in fold apply_callback cbs (poll_effect (p\<lparr>mounted := inst\<rparr>)))
      | _ \<Rightarrow> poll_effect (p\<lparr>mounted := None\<rparr>))"

text \<open>
  A state update in an effect makes React render again. Only \<^verbatim>\<open>showClarification\<close>
  can be set there, and only to true, so the second render is the last one
  (lemma \<open>render_stable\<close>).
\<close>

definition render :: "page \<Rightarrow> page" where
  "render p = render_once (render_once p)"

text \<open>The page when it mounts.\<close>

definition mount :: "jsstring option \<Rightarrow> page" where
  "mount tok =
     render \<lparr>page_token = tok, page_status = None, page_error = None,
             showClarification = False, poller = Idle, poll_deps = None, mounted = None,
             fetches = 0, completions = 0, errorCallbacks = 0\<rparr>"

text \<open>
  What can happen to the mounted page: the awaited status request settles (lines 34-53),
  the timer fires (line 46), \<^verbatim>\<open>submitClarificationAnswers\<close> or \<^verbatim>\<open>skipClarification\<close>
  settles (lines 83-96 and 104-114; the boolean is \<^verbatim>\<open>result.success\<close>), the user logs
  out (line 149), or clicks the button of the error card.
\<close>

datatype event =
    StatusResolved processing_status
  | StatusRejected thrown
  | TimerFired
  | SubmitResolved bool
  | SubmitRejected thrown
  | SkipResolved bool
  | SkipRejected thrown
  | Logout
  | ClickRetry

definition step :: "page \<Rightarrow> event \<Rightarrow> page" where
  "step p e =
     (case e of
        StatusResolved result \<Rightarrow>
          if poller p = InFlight
          then render (p\<lparr>page_status := Some result, page_error := None,
                         poller := (if shouldContinuePolling result then Scheduled else Idle)\<rparr>)
          else p
      | StatusRejected err \<Rightarrow>
          if poller p = InFlight
          then render (p\<lparr>page_error :=
                           Some (case err of ErrorObject m \<Rightarrow> m
                                 | OtherValue \<Rightarrow> lit ''Error al obtener estado''),
                         poller := Idle\<rparr>)
          else p
      | TimerFired \<Rightarrow>
          if poller p = Scheduled then p\<lparr>poller := InFlight, fetches := fetches p + 1\<rparr> else p
      | SubmitResolved s \<Rightarrow> if s then render (p\<lparr>showClarification := False\<rparr>) else p
      | SubmitRejected err \<Rightarrow> p
      | SkipResolved s \<Rightarrow> if s then render (p\<lparr>showClarification := False\<rparr>) else p
      | SkipRejected err \<Rightarrow> p
      | Logout \<Rightarrow> render (p\<lparr>page_token := None\<rparr>)
      | ClickRetry \<Rightarrow>
          (case ProcessingPage_view p of
             ProgressView st \<Rightarrow>
               if truthy_error (error st) then p\<lparr>errorCallbacks := errorCallbacks p + 1\<rparr> else p
           | _ \<Rightarrow> p))"

definition run :: "page \<Rightarrow> event list \<Rightarrow> page" where
  "run p es = fold (\<lambda>e q. step q e) es p"

text \<open>
  Two predicates for stating the properties of the page. The polling effect is in sync
  when its last run saw the token and \<^verbatim>\<open>showClarification\<close> that the page has now
  (React guarantees this after every render). An event resumes when it is the
  successful resolution of a submit or of a skip.
\<close>

definition in_sync :: "page \<Rightarrow> bool" where
  "in_sync p = (poll_deps p = Some (page_token p, showClarification p))"

definition resumes :: "event \<Rightarrow> bool" where
  "resumes e = (e = SubmitResolved True \<or> e = SkipResolved True)"

text \<open>
  What holds of every state the page reaches (lemma \<open>reachable_inv\<close>): the polling
  effect is in sync; the component is mounted exactly when the view holds it, at the
  stage of the status; something is awaited or armed only with a token, with the
  clarification not shown and with a status that is not at \<^verbatim>\<open>ready\<close>; and
  \<^verbatim>\<open>showClarification\<close> is only true with a status at \<^verbatim>\<open>needs_clarification\<close>.
\<close>

definition page_inv :: "page \<Rightarrow> bool" where
  "page_inv p =
     (in_sync p \<and>
      mounted p =
        (case ProcessingPage_view p of ProgressView st \<Rightarrow> Some (stage st) | _ \<Rightarrow> None) \<and>
      (poller p \<noteq> Idle \<longrightarrow> truthy_string (page_token p) \<and> \<not> showClarification p) \<and>
      (poller p \<noteq> Idle \<longrightarrow>
         (\<forall>st. page_status p = Some st \<longrightarrow> stage st \<noteq> Some (lit ''ready''))) \<and>
      (showClarification p \<longrightarrow>
         (\<exists>st. page_status p = Some st \<and> stage st = Some (lit ''needs_clarification''))))"

text \<open>
  A page is parked when nothing is awaited or armed and it shows the clarification view
  or has no token.
\<close>

definition parked :: "page \<Rightarrow> bool" where
  "parked p =
     (page_inv p \<and> poller p = Idle \<and>
      ((\<exists>c. ProcessingPage_view p = ClarificationView c) \<or> \<not> truthy_string (page_token p)))"

section \<open>The gateway client: what a response becomes\<close>

lemma lit_error_neq_message: "lit ''error'' \<noteq> lit ''message''"
  by (simp add: lit_def)

lemma to_string_default [simp]:
  "to_string ns (JStr (lit ''An error occurred'')) = Some (lit ''An error occurred'')"
  by simp




text \<open>
  C10. The body is parsed before the status is looked at: a response whose body is not
  JSON makes \<^verbatim>\<open>request\<close> fail with the parse failure whatever the status, also 2xx; and
  a 2xx response with a JSON body gives that body, unchanged.
\<close>

theorem request_parses_first:
  "(body r = None \<longrightarrow> request ns (FetchResolved r) = Inl SyntaxError) \<and>
   (ok r \<and> body r = Some d \<longrightarrow> request ns (FetchResolved r) = Inr d)"
  by (simp add: request_def)

theorem request_parses_first_witness:
  "request (\<lambda>n. []) (FetchResolved \<lparr>status = 200, body = None\<rparr>) = Inl SyntaxError \<and>
   request (\<lambda>n. []) (FetchResolved \<lparr>status = 201, body = Some (JArr [JNum (Finite 1)])\<rparr>)
     = Inr (JArr [JNum (Finite 1)])"
  using request_parses_first [of "\<lparr>status = 200, body = None\<rparr>" "\<lambda>n. []" JNull]
        request_parses_first [of "\<lparr>status = 201, body = Some (JArr [JNum (Finite 1)])\<rparr>"
                                 "\<lambda>n. []" "JArr [JNum (Finite 1)]"]
  by (simp add: ok_def)

section \<open>The session store: a rejected token\<close>

text \<open>
  C7. When there is a stored token and \<^verbatim>\<open>authApi.me\<close> rejects it, the chain of the
  mount effect ends fulfilled (nothing is thrown to anyone), the stored item is removed,
  token, user and organization are all null, and \<^verbatim>\<open>isLoading\<close> is false.
\<close>

theorem restore_rejected:
  assumes "stored a = Some t" and "t \<noteq> []"
  shows "fst (restore (Rejected e) a) = Fulfilled () \<and>
         stored (snd (restore (Rejected e) a)) = None \<and>
         token (snd (restore (Rejected e) a)) = None \<and>
         user (snd (restore (Rejected e) a)) = None \<and>
         organization (snd (restore (Rejected e) a)) = None \<and>
         \<not> isLoading (snd (restore (Rejected e) a))"
  using assms
  by (simp add: restore_def restore_then_def restore_catch_def restore_finally_def)

theorem restore_rejected_witness:
  "stored (auth_initial (Some (lit ''stale''))) = Some (lit ''stale'') \<and> lit ''stale'' \<noteq> [] \<and>
   restore (Rejected (ErrorObject (lit ''Unauthorized''))) (auth_initial (Some (lit ''stale'')))
     = (Fulfilled (),
        \<lparr>stored = None, user = None, organization = None, token = None, isLoading = False\<rparr>)"
proof -
  have h1: "stored (auth_initial (Some (lit ''stale''))) = Some (lit ''stale'')"
    by (simp add: auth_initial_def)
  have h2: "lit ''stale'' \<noteq> []" by (simp add: lit_def)
  from restore_rejected [OF h1 h2, of "ErrorObject (lit ''Unauthorized'')"]
  show ?thesis using h1 h2
    by (cases "restore (Rejected (ErrorObject (lit ''Unauthorized'')))
                 (auth_initial (Some (lit ''stale'')))")
       (auto simp: auth_initial_def)
qed

section \<open>The conversation session: one exchange\<close>

lemma trim_empty_iff: "trim q = [] \<longleftrightarrow> (\<forall>ch \<in> set q. isWhiteSpace ch)"
proof -
  have "trim q = [] \<longleftrightarrow> (\<forall>ch \<in> set (dropWhile isWhiteSpace q). isWhiteSpace ch)"
    by (simp add: trim_def)
  also have "\<dots> \<longleftrightarrow> dropWhile isWhiteSpace q = []"
    by (metis dropWhile_eq_Nil_conv dropWhile_idem)
  finally show ?thesis by simp
qed

subsection \<open>Renders and effects of the chat page\<close>

lemmas chat_effect_defs = chat_render_once_def load_effect_def sync_effect_def props_of_def
  Let_def

lemma chat_render_once_fixpoint:
  assumes "synced (interface q) =
             Some (conversationId_prop (props_of q), initialMessages_ref (props_of q))"
      and "load_deps q = Some (selectedConversationId q)"
  shows "chat_render_once q = q"
  using assms by (simp add: chat_effect_defs)


lemma chat_render_once_keeps [simp]:
  "selectedConversationId (chat_render_once q) = selectedConversationId q"
  "sidebarKey (chat_render_once q) = sidebarKey q"
  "load_deps (chat_render_once q) = Some (selectedConversationId q)"
  "isLoading_chat (interface (chat_render_once q)) = isLoading_chat (interface q)"
  "asked (interface (chat_render_once q)) = asked (interface q)"
  "input (interface (chat_render_once q)) = input (interface q)"
  by (simp_all add: chat_effect_defs)

lemma chat_render_keeps [simp]:
  "selectedConversationId (chat_render q) = selectedConversationId q"
  "sidebarKey (chat_render q) = sidebarKey q"
  "load_deps (chat_render q) = Some (selectedConversationId q)"
  "isLoading_chat (interface (chat_render q)) = isLoading_chat (interface q)"
  "asked (interface (chat_render q)) = asked (interface q)"
  "input (interface (chat_render q)) = input (interface q)"
  by (simp_all add: chat_render_def)

lemma synced_chat_render_once:
  "synced (interface (chat_render_once q)) =
     Some (conversationId_prop (props_of q), initialMessages_ref (props_of q))"
  by (simp add: chat_effect_defs)

lemma ref_chat_render_once:
  "load_deps q = Some (selectedConversationId q) \<Longrightarrow>
   conversationMessages_ref (chat_render_once q) = conversationMessages_ref q"
  by (simp add: chat_effect_defs)

lemma props_cid_chat_render_once [simp]:
  "conversationId_prop (props_of (chat_render_once q)) = conversationId_prop (props_of q)"
  by (simp add: props_of_def)

lemma chat_render_synced:
  "synced (interface (chat_render q)) =
     Some (conversationId_prop (props_of (chat_render q)),
           initialMessages_ref (props_of (chat_render q)))"
proof -
  have "conversationMessages_ref (chat_render q) = conversationMessages_ref (chat_render_once q)"
    unfolding chat_render_def by (rule ref_chat_render_once) simp
  then show ?thesis
    by (simp add: chat_render_def synced_chat_render_once) (simp add: props_of_def)
qed

lemma chat_render_stable: "chat_render_once (chat_render q) = chat_render q"
  by (rule chat_render_once_fixpoint) (simp_all add: chat_render_synced)








subsection \<open>One call of sendMessage\<close>

lemma props_of_update [simp]:
  "props_of (pg\<lparr>interface := c\<rparr>) = props_of pg"
  "props_of (pg\<lparr>sidebarKey := k\<rparr>) = props_of pg"
  by (simp_all add: props_of_def)







text \<open>
  C5. When the question is empty or consists of white space only, or when an exchange is
  in flight, \<^verbatim>\<open>sendMessage\<close> changes nothing: the whole state (the log, the in-flight
  flag, the conversation identifier, the input, and the count of requests made) is what
  it was, both at the point of the network call and after the whole call. In particular
  a call made after another call has reached its network call, and before that one
  settles, changes nothing and makes no second request. The same on the chat page: the
  page with the component in it is what it was.
\<close>

theorem sendMessage_noop:
  "((\<forall>ch \<in> set question. isWhiteSpace ch) \<or> isLoading_chat c \<longrightarrow>
      sendMessage_begin question now c = c \<and> sendMessage question t1 outcome t2 c = c) \<and>
   (\<not> sendMessage_returns_early q0 c \<longrightarrow>
      sendMessage_begin question now (sendMessage_begin q0 t0 c) = sendMessage_begin q0 t0 c \<and>
      asked (sendMessage_begin question now (sendMessage_begin q0 t0 c)) = asked c + 1) \<and>
   ((\<forall>ch \<in> set question. isWhiteSpace ch) \<or> isLoading_chat (interface pg) \<longrightarrow>
      chat_step pg (AskBegin question now) = pg \<and>
      ChatPage_sendMessage question t1 outcome t2 pg = pg)"
  by (auto simp: sendMessage_begin_def sendMessage_def sendMessage_returns_early_def
        trim_empty_iff chat_step_def ChatPage_sendMessage_def)

theorem sendMessage_noop_witness:
  "sendMessage_begin [0x20, 0x0A] (lit ''t1'')
     \<lparr>messages = [], input = [0x20, 0x0A], isLoading_chat = False,
      currentConversationId = None, synced = None, asked = 0\<rparr>
   = \<lparr>messages = [], input = [0x20, 0x0A], isLoading_chat = False,
      currentConversationId = None, synced = None, asked = 0\<rparr> \<and>
   sendMessage_begin (lit ''hola'') (lit ''t1'')
     \<lparr>messages = [userMessage (lit ''antes'') (lit ''t0'')], input = lit ''hola'',
      isLoading_chat = True, currentConversationId = None, synced = None, asked = 1\<rparr>
   = \<lparr>messages = [userMessage (lit ''antes'') (lit ''t0'')], input = lit ''hola'',
      isLoading_chat = True, currentConversationId = None, synced = None, asked = 1\<rparr> \<and>
   asked (sendMessage_begin (lit ''hola'') (lit ''t1'')
            (sendMessage_begin (lit ''hola'') (lit ''t0'')
               \<lparr>messages = [], input = lit ''hola'', isLoading_chat = False,
                currentConversationId = None, synced = None, asked = 0\<rparr>)) = 1 \<and>
   ChatPage_sendMessage [0x20, 0x0A] (lit ''t1'') (Rejected OtherValue) (lit ''t2'') chat_mount
     = chat_mount"
proof -
  let ?c1 = "\<lparr>messages = [], input = [0x20, 0x0A], isLoading_chat = False,
      currentConversationId = None, synced = None, asked = 0\<rparr>"
  let ?c2 = "\<lparr>messages = [userMessage (lit ''antes'') (lit ''t0'')], input = lit ''hola'',
      isLoading_chat = True, currentConversationId = None, synced = None, asked = 1\<rparr>"
  let ?c3 = "\<lparr>messages = [], input = lit ''hola'', isLoading_chat = False,
      currentConversationId = None, synced = None, asked = 0\<rparr>"
  have h1: "(\<forall>ch \<in> set [0x20, 0x0A]. isWhiteSpace ch) \<or> isLoading_chat ?c1"
    by (simp add: isWhiteSpace_def)
  have h2: "(\<forall>ch \<in> set (lit ''hola''). isWhiteSpace ch) \<or> isLoading_chat ?c2"
    by simp
  have h3: "\<not> sendMessage_returns_early (lit ''hola'') ?c3"
    by (simp add: sendMessage_returns_early_def trim_def lit_def isWhiteSpace_def)
  have h4: "(\<forall>ch \<in> set [0x20, 0x0A]. isWhiteSpace ch) \<or>
            isLoading_chat (interface chat_mount)"
    by (simp add: isWhiteSpace_def)
  from sendMessage_noop [where question = "[0x20, 0x0A]" and c = ?c1 and now = "lit ''t1''",
         THEN conjunct1, rule_format, OF h1]
       sendMessage_noop [where question = "lit ''hola''" and c = ?c2 and now = "lit ''t1''",
         THEN conjunct1, rule_format, OF h2]
       sendMessage_noop [where question = "lit ''hola''" and ?q0.0 = "lit ''hola''"
         and c = ?c3 and now = "lit ''t1''" and ?t0.0 = "lit ''t0''",
         THEN conjunct2, THEN conjunct1, rule_format, OF h3, THEN conjunct2]
       sendMessage_noop [where question = "[0x20, 0x0A]" and pg = chat_mount
         and ?t1.0 = "lit ''t1''" and ?t2.0 = "lit ''t2''" and outcome = "Rejected OtherValue",
         THEN conjunct2, THEN conjunct2, rule_format, OF h4, THEN conjunct2]
  show ?thesis by simp
qed




section \<open>The progress component\<close>

lemma lit_ready_neq: "lit ''ready'' \<noteq> lit ''needs_clarification''"
  by (simp add: lit_def)

lemma indexOf_stageOrder:
  "s \<in> set stageOrder \<Longrightarrow> 0 \<le> indexOf stageOrder s \<and> indexOf stageOrder s \<le> 9"
  by (auto simp: stageOrder_def lit_def)

text \<open>
  Two roundings with relative error at most \<open>2^-53\<close> cannot move a whole percentage by
  a half, so \<^verbatim>\<open>Math.round\<close> gives it back exactly.
\<close>

lemma fl_round:
  fixes fl :: "rat \<Rightarrow> rat"
  assumes fl: "\<forall>x. 1 / 16 \<le> x \<and> x \<le> 128 \<longrightarrow> \<bar>fl x - x\<bar> \<le> x / 2 ^ 53"
      and q: "1 / 10 \<le> q" "q \<le> 1" and n: "q * 100 = of_int n"
  shows "Math_round (fl (fl q * 100)) = n"
proof -
  from fl [rule_format, of q] q have a: "\<bar>fl q - q\<bar> \<le> q / 2 ^ 53" by linarith
  have qq: "q / 2 ^ 53 \<le> q / 1000" using q by (simp add: field_simps)
  from a qq have a1: "q - q / 1000 \<le> fl q" "fl q \<le> q + q / 1000" by linarith+
  then have apos: "1 / 16 \<le> fl q * 100" "fl q * 100 \<le> 128" using q by linarith+
  from fl [rule_format, of "fl q * 100"] apos
  have b: "\<bar>fl (fl q * 100) - fl q * 100\<bar> \<le> fl q * 100 / 2 ^ 53" by blast
  have "fl q * 100 / 2 ^ 53 \<le> fl q * 100 / 1000" using apos by (simp add: field_simps)
  with b have b1: "\<bar>fl (fl q * 100) - fl q * 100\<bar> \<le> fl q / 10" by linarith
  have "\<bar>fl (fl q * 100) - q * 100\<bar> < 1 / 2" using a1 b1 q by linarith
  then have "of_int n \<le> fl (fl q * 100) + 1 / 2" "fl (fl q * 100) + 1 / 2 < of_int n + 1"
    using n by linarith+
  then show ?thesis unfolding Math_round_def by (simp add: floor_unique)
qed

text \<open>
  C8. For a status whose stage is one of the ten of \<open>stageOrder\<close>: the percentage shown
  as the label of the overall bar is (index of the stage + 1) / (number of stages) * 100,
  whatever rounding to nearest the double arithmetic does; computed exactly, the value of
  the bar is that same number; neither depends on the nested \<^verbatim>\<open>progress\<close> of the
  status, which the component shows in a bar of its own; and the progress card, which
  the component returns when the status carries no error, has that label.
\<close>

theorem overallProgress_fraction:
  fixes fl :: "rat \<Rightarrow> rat"
  assumes "\<forall>x. 1 / 16 \<le> x \<and> x \<le> 128 \<longrightarrow> \<bar>fl x - x\<bar> \<le> x / 2 ^ 53"
      and "stage st = Some s" and "s \<in> set stageOrder"
  shows "of_int (Math_round (overallProgress fl st))
           = (of_int (indexOf stageOrder s + 1) / of_nat (length stageOrder) * 100 :: rat) \<and>
         overallProgress (\<lambda>x. x) st
           = of_int (indexOf stageOrder s + 1) / of_nat (length stageOrder) * 100 \<and>
         overallProgress fl (st\<lparr>progress := pr\<rparr>) = overallProgress fl st \<and>
         (\<not> truthy_error (error st) \<longrightarrow>
            ProcessingStatus_render fl st
              = ProgressCard ((indexOf stageOrder s + 1) * 10) (overallProgress fl st)
                  (progress st))"
proof -
  let ?i = "indexOf stageOrder s"
  have len: "length stageOrder = 10" by (simp add: stageOrder_def)
  have ne: "s \<noteq> []" using assms(3) by (auto simp: stageOrder_def lit_def)
  have idx: "currentStageIndex st = ?i"
    using assms(2) ne by (simp add: currentStageIndex_def truthy_string_def)
  from indexOf_stageOrder [OF assms(3)] have r: "0 \<le> ?i" "?i \<le> 9" by simp_all
  let ?q = "of_int (?i + 1) / 10 :: rat"
  have q: "1 / 10 \<le> ?q" "?q \<le> 1" using r by simp_all
  have n: "?q * 100 = of_int ((?i + 1) * 10)" by simp
  from fl_round [OF assms(1) q n]
  have "Math_round (overallProgress fl st) = (?i + 1) * 10"
    by (simp add: overallProgress_def idx len)
  then have M: "Math_round (overallProgress fl st) = (?i + 1) * 10" .
  then have A: "of_int (Math_round (overallProgress fl st))
           = (of_int (indexOf stageOrder s + 1) / of_nat (length stageOrder) * 100 :: rat)"
    by (simp add: len)
  have B: "overallProgress (\<lambda>x. x) st
           = of_int (indexOf stageOrder s + 1) / of_nat (length stageOrder) * 100"
    by (simp add: overallProgress_def idx)
  have C: "overallProgress fl (st\<lparr>progress := pr\<rparr>) = overallProgress fl st"
    by (simp add: overallProgress_def currentStageIndex_def)
  have D: "ProcessingStatus_render fl st
              = ProgressCard ((indexOf stageOrder s + 1) * 10) (overallProgress fl st)
                  (progress st)"
    if "\<not> truthy_error (error st)"
    using that M by (simp add: ProcessingStatus_render_def)
  from A B C D show ?thesis by blast
qed

theorem overallProgress_fraction_witness:
  "Math_round (overallProgress (\<lambda>x. x)
      \<lparr>stage = Some (lit ''processing_data''),
       progress = Some \<lparr>current = Finite 3, total = Finite 10, percentage = Finite 30\<rparr>,
       error = None, clarification = None, validationErrors = None,
       validationWarnings = None\<rparr>) = 50"
proof -
  let ?st = "\<lparr>stage = Some (lit ''processing_data''),
       progress = Some \<lparr>current = Finite 3, total = Finite 10, percentage = Finite 30\<rparr>,
       error = None, clarification = None, validationErrors = None,
       validationWarnings = None\<rparr>"
  have h1: "\<forall>x::rat. 1 / 16 \<le> x \<and> x \<le> 128 \<longrightarrow> \<bar>(\<lambda>x. x) x - x\<bar> \<le> x / 2 ^ 53"
    by simp
  have h2: "stage ?st = Some (lit ''processing_data'')" by simp
  have h3: "lit ''processing_data'' \<in> set stageOrder" by (simp add: stageOrder_def)
  have i: "indexOf stageOrder (lit ''processing_data'') = 4"
    by (simp add: stageOrder_def lit_def)
  have len: "length stageOrder = 10" by (simp add: stageOrder_def)
  from overallProgress_fraction [OF h1 h2 h3, of None, THEN conjunct1]
  have "(of_int (Math_round (overallProgress (\<lambda>x. x) ?st)) :: rat) = of_int 50"
    by (simp add: i len)
  then show ?thesis by (simp only: of_int_eq_iff)
qed

subsection \<open>The completion effect over a sequence of statuses\<close>

lemma feed_append:
  "feed inst (xs @ ys) = feed inst xs @ feed (fold (\<lambda>st i. Some (stage st)) xs inst) ys"
  by (induction xs arbitrary: inst) (simp_all add: ProcessingStatus_effect_def)

lemma feed_no_ready:
  "\<forall>st \<in> set pre. stage st \<noteq> Some (lit ''ready'') \<Longrightarrow>
   count_list (feed inst pre) OnComplete = 0"
  by (induction pre arbitrary: inst)
     (simp_all add: ProcessingStatus_effect_def completion_effect_def)

lemma fold_no_ready:
  "\<forall>st \<in> set pre. stage st \<noteq> Some (lit ''ready'') \<Longrightarrow>
   inst \<noteq> Some (Some (lit ''ready'')) \<Longrightarrow>
   fold (\<lambda>st i. Some (stage st)) pre inst \<noteq> Some (Some (lit ''ready''))"
  by (induction pre arbitrary: inst) simp_all

section \<open>The page: renders and effects\<close>

lemmas effect_defs = render_once_def poll_effect_def ProcessingStatus_effect_def
  completion_effect_def apply_callback_def Let_def

lemma render_once_keeps [simp]:
  "page_token (render_once p) = page_token p"
  "page_status (render_once p) = page_status p"
  "page_error (render_once p) = page_error p"
  "errorCallbacks (render_once p) = errorCallbacks p"
  by (cases "ProcessingPage_view p"; simp add: effect_defs)+

lemma render_keeps [simp]:
  "page_token (render p) = page_token p"
  "page_status (render p) = page_status p"
  "page_error (render p) = page_error p"
  "errorCallbacks (render p) = errorCallbacks p"
  by (simp_all add: render_def)

lemma poll_deps_render_once [simp]:
  "poll_deps (render_once p) = Some (page_token p, showClarification p)"
  by (cases "ProcessingPage_view p"; simp add: effect_defs)

lemma mounted_render_once:
  "mounted (render_once p) =
     (case ProcessingPage_view p of ProgressView st \<Rightarrow> Some (stage st) | _ \<Rightarrow> None)"
  by (cases "ProcessingPage_view p"; simp add: effect_defs)

lemma showClarification_render_once:
  "showClarification (render_once p) =
     (showClarification p \<or>
      (\<exists>st. ProcessingPage_view p = ProgressView st \<and> mounted p \<noteq> Some (stage st) \<and>
            stage st = Some (lit ''needs_clarification'')))"
  by (cases "ProcessingPage_view p"; simp add: effect_defs)

lemma poller_render_once:
  "poller (render_once p) =
     (if in_sync p then poller p
      else if truthy_string (page_token p) \<and> \<not> showClarification p then InFlight else Idle)"
  by (cases "ProcessingPage_view p"; simp add: effect_defs in_sync_def)

lemma fetches_render_once:
  "fetches (render_once p) =
     (if \<not> in_sync p \<and> truthy_string (page_token p) \<and> \<not> showClarification p
      then fetches p + 1 else fetches p)"
  by (cases "ProcessingPage_view p"; simp add: effect_defs in_sync_def)

lemma completions_render_once:
  "completions (render_once p) =
     (if \<exists>st. ProcessingPage_view p = ProgressView st \<and> mounted p \<noteq> Some (stage st) \<and>
              stage st = Some (lit ''ready'')
      then completions p + 1 else completions p)"
  by (cases "ProcessingPage_view p"; simp add: effect_defs)

lemma view_ProgressView_iff:
  "ProcessingPage_view p = ProgressView st \<longleftrightarrow>
     truthy_string (page_token p) \<and> \<not> truthy_string (page_error p) \<and>
     page_status p = Some st \<and>
     (validationErrors st = None \<or> validationErrors st = Some []) \<and>
     \<not> (showClarification p \<and> truthy_opt (clarification st))"
  by (auto simp: ProcessingPage_view_def split: option.splits)

lemma view_ClarificationView_iff:
  "ProcessingPage_view p = ClarificationView c \<longleftrightarrow>
     truthy_string (page_token p) \<and> \<not> truthy_string (page_error p) \<and>
     (\<exists>st. page_status p = Some st \<and>
        (validationErrors st = None \<or> validationErrors st = Some []) \<and>
        showClarification p \<and> clarification st = Some c \<and> truthy c)"
  by (auto simp: ProcessingPage_view_def truthy_opt_def split: option.splits)

lemma view_cong:
  assumes "page_token q = page_token p" "page_error q = page_error p"
      "page_status q = page_status p" "showClarification q = showClarification p"
  shows "ProcessingPage_view q = ProcessingPage_view p"
  unfolding ProcessingPage_view_def assms ..

lemma view_update [simp]:
  "ProcessingPage_view (p\<lparr>poller := a\<rparr>) = ProcessingPage_view p"
  "ProcessingPage_view (p\<lparr>fetches := b\<rparr>) = ProcessingPage_view p"
  "ProcessingPage_view (p\<lparr>errorCallbacks := c\<rparr>) = ProcessingPage_view p"
  by (rule view_cong; simp)+

lemma view_LoginRequired:
  "\<not> truthy_string (page_token p) \<Longrightarrow> ProcessingPage_view p = LoginRequired"
  by (simp add: ProcessingPage_view_def)

lemma view_after_render_once:
  assumes "ProcessingPage_view (render_once p) = ProgressView st"
  shows "ProcessingPage_view p = ProgressView st"
  using assms by (auto simp: view_ProgressView_iff showClarification_render_once)

text \<open>The second render sets no state, so there is no third.\<close>

lemma render_once_settles:
  "showClarification (render_once (render_once p)) = showClarification (render_once p)"
proof -
  have "mounted (render_once p) = Some (stage st)"
    if "ProcessingPage_view (render_once p) = ProgressView st" for st
    using view_after_render_once [OF that] by (simp add: mounted_render_once)
  then show ?thesis
    by (subst showClarification_render_once) blast
qed

lemma render_in_sync: "in_sync (render p)"
  by (simp add: in_sync_def render_def render_once_settles)

lemma render_once_fixpoint:
  assumes "in_sync q"
      and "mounted q =
             (case ProcessingPage_view q of ProgressView st \<Rightarrow> Some (stage st) | _ \<Rightarrow> None)"
  shows "render_once q = q"
  using assms by (cases "ProcessingPage_view q"; simp add: effect_defs in_sync_def)

lemma render_stable: "render_once (render p) = render p"
proof (rule render_once_fixpoint)
  show "in_sync (render p)" by (rule render_in_sync)
  have "ProcessingPage_view (render p) = ProcessingPage_view (render_once p)"
    unfolding render_def by (rule view_cong) (simp_all add: render_once_settles)
  then show "mounted (render p) =
     (case ProcessingPage_view (render p) of ProgressView st \<Rightarrow> Some (stage st) | _ \<Rightarrow> None)"
    by (simp add: render_def mounted_render_once)
qed

lemma mounted_render:
  "mounted (render q) =
     (case ProcessingPage_view (render q) of ProgressView st \<Rightarrow> Some (stage st) | _ \<Rightarrow> None)"
  using render_stable [of q] mounted_render_once [of "render q"] by simp

lemma showClarification_render:
  "showClarification (render q) = showClarification (render_once q)"
  by (simp add: render_def render_once_settles)

lemma poller_render:
  "poller (render q) =
     (if showClarification (render_once q) \<noteq> showClarification q then Idle
      else poller (render_once q))"
  by (auto simp: render_def poller_render_once [of "render_once q"] in_sync_def
        showClarification_render_once)

lemma completions_render_eq: "completions (render q) = completions (render_once q)"
proof -
  have "mounted (render_once q) = Some (stage st)"
    if "ProcessingPage_view (render_once q) = ProgressView st" for st
    using view_after_render_once [OF that] by (simp add: mounted_render_once)
  then show ?thesis
    unfolding render_def by (subst completions_render_once) auto
qed

lemma completions_render: "completions (render q) \<le> completions q + 1"
  by (simp add: completions_render_eq completions_render_once)

subsection \<open>Every state the page reaches is in sync\<close>

lemma in_sync_update [simp]:
  "in_sync (p\<lparr>page_status := a\<rparr>) = in_sync p"
  "in_sync (p\<lparr>page_error := b\<rparr>) = in_sync p"
  "in_sync (p\<lparr>poller := c\<rparr>) = in_sync p"
  "in_sync (p\<lparr>fetches := d\<rparr>) = in_sync p"
  "in_sync (p\<lparr>errorCallbacks := f\<rparr>) = in_sync p"
  by (simp_all add: in_sync_def)

lemma step_in_sync: "in_sync p \<Longrightarrow> in_sync (step p e)"
  by (cases e) (simp_all add: step_def render_in_sync split: view.splits)

lemma run_in_sync: "in_sync p \<Longrightarrow> in_sync (run p es)"
  unfolding run_def by (induction es arbitrary: p) (simp_all add: step_in_sync)

lemma mount_in_sync: "in_sync (mount tok)"
  by (simp add: mount_def render_in_sync)

subsection \<open>A poller at rest stays at rest until a submit or a skip succeeds\<close>

lemma render_idle:
  assumes "poller q = Idle"
      and "in_sync q \<or> \<not> truthy_string (page_token q) \<or> showClarification q"
  shows "poller (render q) = Idle \<and> fetches (render q) = fetches q"
proof -
  let ?q1 = "render_once q"
  have 1: "poller ?q1 = Idle" "fetches ?q1 = fetches q"
    using assms by (auto simp: poller_render_once fetches_render_once)
  have 2: "in_sync ?q1 \<or> showClarification ?q1"
    by (auto simp: in_sync_def showClarification_render_once)
  from 1 2 show ?thesis
    by (auto simp: render_def poller_render_once fetches_render_once)
qed

lemma idle_step:
  assumes "in_sync p" and "poller p = Idle" and "\<not> resumes e"
  shows "poller (step p e) = Idle \<and> fetches (step p e) = fetches p"
proof (cases e)
  case Logout
  then show ?thesis using assms render_idle [of "p\<lparr>page_token := None\<rparr>"]
    by (simp add: step_def truthy_string_def)
qed (use assms in \<open>simp_all add: step_def resumes_def split: view.splits\<close>)

lemma idle_run:
  assumes "in_sync p" and "poller p = Idle" and "\<forall>e \<in> set es. \<not> resumes e"
  shows "poller (run p es) = Idle \<and> fetches (run p es) = fetches p"
  using assms
proof (induction es arbitrary: p)
  case Nil
  then show ?case by (simp add: run_def)
next
  case (Cons e es)
  from Cons.prems have s: "in_sync (step p e)" "poller (step p e) = Idle"
      "fetches (step p e) = fetches p"
    using idle_step [of p e] step_in_sync [of p e] by simp_all
  from Cons.IH [OF s(1,2)] Cons.prems(3) s(3) show ?case
    by (simp add: run_def)
qed

lemma stop_step:
  assumes "in_sync p" and "poller p = InFlight" and "\<not> shouldContinuePolling st"
  shows "poller (step p (StatusResolved st)) = Idle \<and>
         fetches (step p (StatusResolved st)) = fetches p"
  using assms
    render_idle [of "p\<lparr>page_status := Some st, page_error := None, poller := Idle\<rparr>"]
  by (simp add: step_def)

subsection \<open>What holds of every state the page reaches\<close>

lemma render_inv:
  assumes "showClarification q \<longrightarrow>
             (\<exists>st. page_status q = Some st \<and> stage st = Some (lit ''needs_clarification''))"
      and "poller q \<noteq> Idle \<and> in_sync q \<longrightarrow>
             truthy_string (page_token q) \<and> \<not> showClarification q \<and>
             (\<forall>st. page_status q = Some st \<longrightarrow> stage st \<noteq> Some (lit ''ready''))"
      and "\<not> in_sync q \<and> truthy_string (page_token q) \<longrightarrow>
             (\<forall>st. page_status q = Some st \<longrightarrow> stage st \<noteq> Some (lit ''ready''))"
  shows "page_inv (render q)"
proof -
  have 1: "in_sync (render q)" by (rule render_in_sync)
  have 2: "mounted (render q) =
     (case ProcessingPage_view (render q) of ProgressView st \<Rightarrow> Some (stage st) | _ \<Rightarrow> None)"
    by (rule mounted_render)
  have 5: "showClarification (render q) \<longrightarrow>
         (\<exists>st. page_status (render q) = Some st \<and> stage st = Some (lit ''needs_clarification''))"
    using assms(1)
    by (auto simp: showClarification_render showClarification_render_once view_ProgressView_iff)
  have 3: "truthy_string (page_token (render q)) \<and> \<not> showClarification (render q) \<and>
           (\<forall>st. page_status (render q) = Some st \<longrightarrow> stage st \<noteq> Some (lit ''ready''))"
    if "poller (render q) \<noteq> Idle"
  proof -
    from that have same: "showClarification (render_once q) = showClarification q"
      and p1: "poller (render_once q) \<noteq> Idle"
      by (auto simp: poller_render split: if_splits)
    show ?thesis
    proof (cases "in_sync q")
      case True
      with p1 have "poller q \<noteq> Idle" by (simp add: poller_render_once)
      with assms(2) True same show ?thesis by (simp add: showClarification_render)
    next
      case False
      with p1 have t: "truthy_string (page_token q)" "\<not> showClarification q"
        by (auto simp: poller_render_once split: if_splits)
      with False assms(3) same show ?thesis by (simp add: showClarification_render)
    qed
  qed
  from 1 2 3 5 show ?thesis unfolding page_inv_def by blast
qed

lemma mount_inv: "page_inv (mount tok)"
  unfolding mount_def by (rule render_inv) simp_all

lemma page_inv_in_sync: "page_inv p \<Longrightarrow> in_sync p"
  by (simp add: page_inv_def)

lemma step_inv:
  assumes "page_inv p"
  shows "page_inv (step p e)"
proof (cases e)
  case (StatusResolved st)
  show ?thesis
  proof (cases "poller p = InFlight")
    case True
    have "page_inv (render (p\<lparr>page_status := Some st, page_error := None,
             poller := (if shouldContinuePolling st then Scheduled else Idle)\<rparr>))"
      using assms True
      by (intro render_inv) (auto simp: page_inv_def shouldContinuePolling_def)
    with True StatusResolved show ?thesis by (simp add: step_def)
  next
    case False
    with StatusResolved assms show ?thesis by (simp add: step_def)
  qed
next
  case (StatusRejected err)
  show ?thesis
  proof (cases "poller p = InFlight")
    case True
    have "page_inv (render (p\<lparr>page_error :=
                           Some (case err of ErrorObject m \<Rightarrow> m
                                 | OtherValue \<Rightarrow> lit ''Error al obtener estado''),
                         poller := Idle\<rparr>))"
      using assms True
      by (intro render_inv) (auto simp: page_inv_def in_sync_def)
    with True StatusRejected show ?thesis by (simp add: step_def)
  next
    case False
    with StatusRejected assms show ?thesis by (simp add: step_def)
  qed
next
  case TimerFired
  from TimerFired assms show ?thesis
    by (auto simp: step_def page_inv_def)
next
  case (SubmitResolved s)
  have "page_inv (render (p\<lparr>showClarification := False\<rparr>))"
    using assms
    by (intro render_inv) (auto simp: page_inv_def in_sync_def lit_ready_neq [symmetric])
  with SubmitResolved assms show ?thesis by (simp add: step_def)
next
  case (SkipResolved s)
  have "page_inv (render (p\<lparr>showClarification := False\<rparr>))"
    using assms
    by (intro render_inv) (auto simp: page_inv_def in_sync_def lit_ready_neq [symmetric])
  with SkipResolved assms show ?thesis by (simp add: step_def)
next
  case Logout
  have "page_inv (render (p\<lparr>page_token := None\<rparr>))"
    using assms
    by (intro render_inv) (auto simp: page_inv_def in_sync_def truthy_string_def)
  with Logout show ?thesis by (simp add: step_def)
next
  case ClickRetry
  from ClickRetry assms show ?thesis
    by (auto simp: step_def page_inv_def split: view.splits)
qed (use assms in \<open>simp_all add: step_def\<close>)

lemma run_inv: "page_inv p \<Longrightarrow> page_inv (run p es)"
  unfolding run_def by (induction es arbitrary: p) (simp_all add: step_inv)

lemma reachable_inv: "page_inv (run (mount tok) es)"
  by (simp add: run_inv mount_inv)

section \<open>The page: what a fetched status leads to\<close>

text \<open>
  C1. When an awaited status request resolves, the page holds the fetched status, and:
  if its \<^verbatim>\<open>validationErrors\<close> is a non-empty list the page shows the validation errors,
  whatever the stage, the clarification payload and \<^verbatim>\<open>showClarification\<close> are; the
  clarification view is shown exactly when there are no validation errors, the
  clarification is being shown and the status has a clarification payload (a truthy
  one), and then with that payload; in every other case the page shows the progress
  component with the status.
\<close>

theorem view_priority:
  assumes "truthy_string (page_token p)" and "poller p = InFlight"
  shows "page_status (step p (StatusResolved st)) = Some st \<and>
     (validationErrors st \<noteq> None \<and> validationErrors st \<noteq> Some [] \<longrightarrow>
        ProcessingPage_view (step p (StatusResolved st))
          = ValidationErrorsView (the (validationErrors st)) (validationWarnings st)) \<and>
     (\<forall>c. ProcessingPage_view (step p (StatusResolved st)) = ClarificationView c \<longleftrightarrow>
        (validationErrors st = None \<or> validationErrors st = Some []) \<and>
        showClarification (step p (StatusResolved st)) \<and> clarification st = Some c \<and>
        truthy c) \<and>
     ((validationErrors st = None \<or> validationErrors st = Some []) \<and>
      \<not> (showClarification (step p (StatusResolved st)) \<and> truthy_opt (clarification st)) \<longrightarrow>
        ProcessingPage_view (step p (StatusResolved st)) = ProgressView st)"
proof -
  let ?p' = "step p (StatusResolved st)"
  have f: "page_token ?p' = page_token p" "page_status ?p' = Some st" "page_error ?p' = None"
    using assms(2) by (simp_all add: step_def)
  show ?thesis
    using assms(1) unfolding ProcessingPage_view_def f
    by (auto simp: truthy_string_def truthy_opt_def split: option.splits)
qed

lemmas eval_defs = run_def step_def mount_def render_def effect_defs ProcessingPage_view_def
  truthy_string_def truthy_opt_def shouldContinuePolling_def truthy_error_def lit_def

theorem view_priority_witness:
  "truthy_string (page_token (mount (Some (lit ''tok'')))) \<and>
   poller (mount (Some (lit ''tok''))) = InFlight \<and>
   ProcessingPage_view (step (mount (Some (lit ''tok'')))
      (StatusResolved \<lparr>stage = Some (lit ''needs_clarification''), progress = None,
         error = None, clarification = Some (JObj []), validationErrors = Some [JObj []],
         validationWarnings = None\<rparr>))
     = ValidationErrorsView [JObj []] None"
proof -
  let ?st = "\<lparr>stage = Some (lit ''needs_clarification''), progress = None,
         error = None, clarification = Some (JObj []), validationErrors = Some [JObj []],
         validationWarnings = None\<rparr>"
  have h1: "truthy_string (page_token (mount (Some (lit ''tok''))))"
    by (simp add: mount_def truthy_string_def lit_def)
  have h2: "poller (mount (Some (lit ''tok''))) = InFlight"
    by (simp add: eval_defs)
  from view_priority [OF h1 h2, of ?st] show ?thesis using h1 h2 by simp
qed

lemma ready_not_shown_as_clarification:
  assumes "p = run (mount tok) es0" and "poller p = InFlight"
      and "stage r1 = Some (lit ''ready'')"
  shows "truthy_string (page_token p)"
    and "\<not> showClarification (step p (StatusResolved r1))"
    and "mounted p \<noteq> Some (Some (lit ''ready''))"
proof -
  let ?q = "p\<lparr>page_status := Some r1, page_error := None, poller := Idle\<rparr>"
  have i: "page_inv p" using assms(1) by (simp add: reachable_inv)
  have n: "\<not> shouldContinuePolling r1" using assms(3) by (simp add: shouldContinuePolling_def)
  have s: "step p (StatusResolved r1) = render ?q" using assms(2) n by (simp add: step_def)
  show "truthy_string (page_token p)" using i assms(2) by (simp add: page_inv_def)
  have "\<not> showClarification p" using i assms(2) by (simp add: page_inv_def)
  then show "\<not> showClarification (step p (StatusResolved r1))"
    using assms(3)
    by (auto simp: s showClarification_render showClarification_render_once
          view_ProgressView_iff lit_ready_neq)
  show "mounted p \<noteq> Some (Some (lit ''ready''))"
    using i assms(2) by (auto simp: page_inv_def view_ProgressView_iff split: view.splits)
qed

lemma ready_completions:
  assumes "p = run (mount tok) es0" and "poller p = InFlight"
      and "stage r1 = Some (lit ''ready'')"
  shows "completions (step p (StatusResolved r1)) =
           (if validationErrors r1 = None \<or> validationErrors r1 = Some []
            then completions p + 1 else completions p)"
proof -
  let ?q = "p\<lparr>page_status := Some r1, page_error := None, poller := Idle\<rparr>"
  have n: "\<not> shouldContinuePolling r1" using assms(3) by (simp add: shouldContinuePolling_def)
  have s: "step p (StatusResolved r1) = render ?q" using assms(2) n by (simp add: step_def)
  note r = ready_not_shown_as_clarification [OF assms]
  have i: "page_inv p" using assms(1) by (simp add: reachable_inv)
  have nc: "\<not> showClarification p" using i assms(2) by (simp add: page_inv_def)
  have v: "ProcessingPage_view ?q = ProgressView st \<longleftrightarrow>
             st = r1 \<and> (validationErrors r1 = None \<or> validationErrors r1 = Some [])" for st
    using r(1) nc by (auto simp: view_ProgressView_iff truthy_string_def)
  have "completions (render_once ?q) =
           (if validationErrors r1 = None \<or> validationErrors r1 = Some []
            then completions ?q + 1 else completions ?q)"
    unfolding completions_render_once [of ?q] v using r(3) assms(3) by auto
  then show ?thesis
    by (simp add: s completions_render_eq)
qed

text \<open>
  C3, as the code has it. For two consecutive statuses that are both at \<^verbatim>\<open>ready\<close>:
  a mounted progress component calls \<^verbatim>\<open>onComplete\<close> no more often for both than for
  the first alone, whatever it was rendered with before, and exactly once in all when it
  was not at \<^verbatim>\<open>ready\<close> before. On the page the second result does not even arrive:
  the first one arms no timer, so a second resolution finds nothing awaited and changes
  nothing. For the two, \<^verbatim>\<open>handleComplete\<close> runs exactly once when the first result
  carries no validation errors, and not at all when it carries some: then the page shows
  the validation errors and the progress component is not mounted.
\<close>

theorem completion_once:
  assumes "stage r1 = Some (lit ''ready'')" and "stage r2 = Some (lit ''ready'')"
      and "p = run (mount tok) es0" and "poller p = InFlight"
  shows "count_list (feed inst (xs @ [r1, r2])) OnComplete
           = count_list (feed inst (xs @ [r1])) OnComplete \<and>
         ((\<forall>st \<in> set xs. stage st \<noteq> Some (lit ''ready'')) \<and>
          inst \<noteq> Some (Some (lit ''ready'')) \<longrightarrow>
            count_list (feed inst (xs @ [r1, r2])) OnComplete = 1) \<and>
         \<not> shouldContinuePolling r1 \<and>
         run p [StatusResolved r1, StatusResolved r2] = step p (StatusResolved r1) \<and>
         (validationErrors r1 = None \<or> validationErrors r1 = Some [] \<longrightarrow>
            ProcessingPage_view (step p (StatusResolved r1)) = ProgressView r1 \<and>
            completions (run p [StatusResolved r1, StatusResolved r2]) = completions p + 1) \<and>
         (validationErrors r1 \<noteq> None \<and> validationErrors r1 \<noteq> Some [] \<longrightarrow>
            completions (run p [StatusResolved r1, StatusResolved r2]) = completions p)"
proof -
  have A: "count_list (feed inst (xs @ [r1, r2])) OnComplete
           = count_list (feed inst (xs @ [r1])) OnComplete"
    using assms(1,2)
    by (simp add: feed_append ProcessingStatus_effect_def completion_effect_def)
  have A': "count_list (feed inst (xs @ [r1, r2])) OnComplete = 1"
    if "\<forall>st \<in> set xs. stage st \<noteq> Some (lit ''ready'')"
      and "inst \<noteq> Some (Some (lit ''ready''))"
    using assms(1,2) feed_no_ready [OF that(1), of inst] fold_no_ready [OF that]
    by (simp add: feed_append ProcessingStatus_effect_def completion_effect_def
          lit_ready_neq)
  have n: "\<not> shouldContinuePolling r1" using assms(1) by (simp add: shouldContinuePolling_def)
  have i: "in_sync p" using assms(3) by (simp add: run_in_sync mount_in_sync)
  from stop_step [OF i assms(4) n]
  have B: "run p [StatusResolved r1, StatusResolved r2] = step p (StatusResolved r1)"
    by (simp add: run_def step_def [of "step p (StatusResolved r1)"])
  note C = ready_completions [OF assms(3,4,1)]
  note r = ready_not_shown_as_clarification [OF assms(3,4,1)]
  have D: "ProcessingPage_view (step p (StatusResolved r1)) = ProgressView r1"
    if "validationErrors r1 = None \<or> validationErrors r1 = Some []"
  proof -
    have f: "page_token (step p (StatusResolved r1)) = page_token p"
      "page_status (step p (StatusResolved r1)) = Some r1"
      "page_error (step p (StatusResolved r1)) = None"
      using assms(4) by (simp_all add: step_def)
    show ?thesis
      using that r(1,2) by (auto simp: view_ProgressView_iff f truthy_string_def)
  qed
  from A A' n B C D show ?thesis by simp
qed

theorem completion_once_witness:
  "count_list
     (feed None
        [\<lparr>stage = Some (lit ''generating_examples''), progress = None, error = None,
          clarification = None, validationErrors = None, validationWarnings = None\<rparr>,
         \<lparr>stage = Some (lit ''ready''), progress = None, error = None,
          clarification = None, validationErrors = None, validationWarnings = None\<rparr>,
         \<lparr>stage = Some (lit ''ready''), progress = None, error = None,
          clarification = None, validationErrors = None, validationWarnings = None\<rparr>])
     OnComplete = 1 \<and>
   completions (run (mount (Some (lit ''tok'')))
     [StatusResolved \<lparr>stage = Some (lit ''ready''), progress = None, error = None,
        clarification = None, validationErrors = None, validationWarnings = None\<rparr>,
      StatusResolved \<lparr>stage = Some (lit ''ready''), progress = None, error = None,
        clarification = None, validationErrors = None, validationWarnings = None\<rparr>]) = 1"
proof -
  let ?g = "\<lparr>stage = Some (lit ''generating_examples''), progress = None, error = None,
          clarification = None, validationErrors = None, validationWarnings = None\<rparr>"
  let ?r = "\<lparr>stage = Some (lit ''ready''), progress = None, error = None,
          clarification = None, validationErrors = None, validationWarnings = None\<rparr>"
  let ?p = "mount (Some (lit ''tok''))"
  have h1: "(\<forall>st \<in> set [?g]. stage st \<noteq> Some (lit ''ready'')) \<and>
            (None :: jsstring option option) \<noteq> Some (Some (lit ''ready''))"
    by (simp add: lit_def)
  have h3: "stage ?r = Some (lit ''ready'')" by simp
  have h5: "?p = run (mount (Some (lit ''tok''))) []" by (simp add: run_def)
  have h6: "poller ?p = InFlight" by (simp add: eval_defs)
  have c: "completions ?p = 0" by (simp add: eval_defs)
  have ve: "validationErrors ?r = None \<or> validationErrors ?r = Some []" by simp
  note F = completion_once [OF h3 h3 h5 h6, of None "[?g]"]
  from F h1 have a: "count_list (feed None ([?g] @ [?r, ?r])) OnComplete = 1" by blast
  from F ve have b: "completions (run ?p [StatusResolved ?r, StatusResolved ?r])
                      = completions ?p + 1"
    by blast
  from a b c show ?thesis by (simp del: feed.simps)
qed

text \<open>
  C3 as the specification words it fails: two consecutive results at \<^verbatim>\<open>ready\<close> that
  carry a validation error are both fetched as far as the page lets them, the page holds
  the first, and \<^verbatim>\<open>handleComplete\<close> has not run once but not at all.
\<close>

theorem completion_once_counterexample:
  "poller (mount (Some (lit ''tok''))) = InFlight \<and>
   page_status (run (mount (Some (lit ''tok'')))
     [StatusResolved \<lparr>stage = Some (lit ''ready''), progress = None, error = None,
        clarification = None, validationErrors = Some [JObj []], validationWarnings = None\<rparr>,
      StatusResolved \<lparr>stage = Some (lit ''ready''), progress = None, error = None,
        clarification = None, validationErrors = Some [JObj []], validationWarnings = None\<rparr>])
     = Some \<lparr>stage = Some (lit ''ready''), progress = None, error = None,
        clarification = None, validationErrors = Some [JObj []], validationWarnings = None\<rparr> \<and>
   completions (run (mount (Some (lit ''tok'')))
     [StatusResolved \<lparr>stage = Some (lit ''ready''), progress = None, error = None,
        clarification = None, validationErrors = Some [JObj []], validationWarnings = None\<rparr>,
      StatusResolved \<lparr>stage = Some (lit ''ready''), progress = None, error = None,
        clarification = None, validationErrors = Some [JObj []], validationWarnings = None\<rparr>])
     = 0"
  by (simp add: eval_defs)

text \<open>
  C9, as the code has it. When the awaited status request of a page resolves with a
  status that carries an error, no timer is armed and no status is requested again, as
  long as no submit or skip of a clarification succeeds. The page does not call
  \<^verbatim>\<open>handleError\<close>: when it shows the progress component, the component shows the
  error card, and it is the click on the button of that card that calls it.
\<close>

theorem error_result_stops_polling:
  assumes "p = run (mount tok) es0" and "poller p = InFlight"
      and "truthy_error (error st)" and "\<forall>e \<in> set es. \<not> resumes e"
  shows "poller (step p (StatusResolved st)) = Idle \<and>
         fetches (run (step p (StatusResolved st)) es) = fetches p \<and>
         errorCallbacks (step p (StatusResolved st)) = errorCallbacks p \<and>
         (ProcessingPage_view (step p (StatusResolved st)) = ProgressView st \<longrightarrow>
            ProcessingStatus_render fl st = ErrorCard (errorMessage_of (the (error st))) \<and>
            errorCallbacks (step (step p (StatusResolved st)) ClickRetry)
              = errorCallbacks (step p (StatusResolved st)) + 1)"
proof -
  let ?p' = "step p (StatusResolved st)"
  have i: "in_sync p" using assms(1) by (simp add: run_in_sync mount_in_sync)
  have n: "\<not> shouldContinuePolling st" using assms(3) by (simp add: shouldContinuePolling_def)
  note s = stop_step [OF i assms(2) n]
  from s idle_run [OF step_in_sync [OF i] _ assms(4)]
  have A: "poller ?p' = Idle \<and> fetches (run ?p' es) = fetches p" by simp
  have B: "errorCallbacks ?p' = errorCallbacks p"
    using assms(2) by (simp add: step_def)
  have C: "ProcessingStatus_render fl st = ErrorCard (errorMessage_of (the (error st)))"
    using assms(3) by (simp add: ProcessingStatus_render_def)
  have D: "errorCallbacks (step ?p' ClickRetry) = errorCallbacks ?p' + 1"
    if "ProcessingPage_view ?p' = ProgressView st"
    using that assms(3) by (simp add: step_def [of ?p' ClickRetry])
  from A B C D show ?thesis by blast
qed

theorem error_result_stops_polling_witness:
  "poller (mount (Some (lit ''tok''))) = InFlight \<and>
   fetches (run (step (mount (Some (lit ''tok'')))
      (StatusResolved \<lparr>stage = Some (lit ''processing_data''), progress = None,
         error = Some (ObjectError None), clarification = None, validationErrors = None,
         validationWarnings = None\<rparr>)) [TimerFired, SubmitResolved False, ClickRetry])
     = fetches (mount (Some (lit ''tok''))) \<and>
   errorCallbacks (step (step (mount (Some (lit ''tok'')))
      (StatusResolved \<lparr>stage = Some (lit ''processing_data''), progress = None,
         error = Some (ObjectError None), clarification = None, validationErrors = None,
         validationWarnings = None\<rparr>)) ClickRetry) = 1"
proof -
  let ?st = "\<lparr>stage = Some (lit ''processing_data''), progress = None,
         error = Some (ObjectError None), clarification = None, validationErrors = None,
         validationWarnings = None\<rparr>"
  let ?p = "mount (Some (lit ''tok''))"
  have h1: "?p = run (mount (Some (lit ''tok''))) []" by (simp add: run_def)
  have h2: "poller ?p = InFlight" by (simp add: eval_defs)
  have h3: "truthy_error (error ?st)" by (simp add: truthy_error_def)
  have h4: "\<forall>e \<in> set [TimerFired, SubmitResolved False, ClickRetry]. \<not> resumes e"
    by (simp add: resumes_def)
  have v: "ProcessingPage_view (step ?p (StatusResolved ?st)) = ProgressView ?st"
    by (simp add: eval_defs)
  have z: "errorCallbacks (step ?p (StatusResolved ?st)) = 0"
    by (simp add: eval_defs)
  from error_result_stops_polling [OF h1 h2 h3 h4, of id] v z h2 show ?thesis by simp
qed

text \<open>
  C9 as the specification words it fails: the page gets a status with the error \<^verbatim>\<open>boom\<close> and
  holds it, and \<^verbatim>\<open>handleError\<close> has not been called.
\<close>

theorem error_callback_counterexample:
  "poller (mount (Some (lit ''tok''))) = InFlight \<and>
   page_status (step (mount (Some (lit ''tok'')))
     (StatusResolved \<lparr>stage = Some (lit ''processing_data''), progress = None,
        error = Some (StringError (lit ''boom'')), clarification = None,
        validationErrors = None, validationWarnings = None\<rparr>))
     = Some \<lparr>stage = Some (lit ''processing_data''), progress = None,
        error = Some (StringError (lit ''boom'')), clarification = None,
        validationErrors = None, validationWarnings = None\<rparr> \<and>
   errorCallbacks (step (mount (Some (lit ''tok'')))
     (StatusResolved \<lparr>stage = Some (lit ''processing_data''), progress = None,
        error = Some (StringError (lit ''boom'')), clarification = None,
        validationErrors = None, validationWarnings = None\<rparr>)) = 0"
  by (simp add: eval_defs)

section \<open>The page: suspending and resuming the polling\<close>

text \<open>
  Once a fetched status is at \<^verbatim>\<open>needs_clarification\<close>, no status is requested until a
  submit or a skip succeeds.
\<close>

lemma suspended_until_resumed:
  assumes "p = run (mount tok) es0" and "poller p = InFlight"
      and "stage st = Some (lit ''needs_clarification'')"
      and "\<forall>e \<in> set es. \<not> resumes e"
  shows "fetches (run (step p (StatusResolved st)) es) = fetches p"
proof -
  have i: "in_sync p" using assms(1) by (simp add: run_in_sync mount_in_sync)
  have n: "\<not> shouldContinuePolling st" using assms(3) by (simp add: shouldContinuePolling_def)
  from stop_step [OF i assms(2) n] idle_run [OF step_in_sync [OF i] _ assms(4)]
  show ?thesis by simp
qed

text \<open>A submit or a skip that succeeds while the clarification is shown requests the status once.\<close>

lemma resume_fetches_once:
  assumes "in_sync p" and "showClarification p" and "truthy_string (page_token p)"
      and "resumes e"
  shows "fetches (step p e) = fetches p + 1"
proof -
  let ?q = "p\<lparr>showClarification := False\<rparr>"
  have s: "step p e = render ?q" using assms(4) by (auto simp: resumes_def step_def)
  have 1: "fetches (render_once ?q) = fetches p + 1"
    using assms by (simp add: fetches_render_once in_sync_def)
  have 2: "in_sync (render_once ?q) \<or> showClarification (render_once ?q)"
    by (auto simp: in_sync_def showClarification_render_once)
  from 1 2 show ?thesis
    by (auto simp: s render_def fetches_render_once)
qed

text \<open>
  But the page that shows the clarification view still holds the status at
  \<^verbatim>\<open>needs_clarification\<close>. When \<^verbatim>\<open>showClarification\<close> becomes false the progress
  component is mounted with that status, its effect calls \<^verbatim>\<open>onClarificationNeeded\<close>,
  \<^verbatim>\<open>showClarification\<close> is true again, and the cleanup of the polling effect discards
  the request just made: the page is where it was, one request later.
\<close>

lemma resume_returns_to_clarification:
  assumes "in_sync p" and "ProcessingPage_view p = ClarificationView c"
      and "page_status p = Some st" and "stage st = Some (lit ''needs_clarification'')"
      and "mounted p = None" and "poller p = Idle" and "resumes e"
  shows "step p e = p\<lparr>fetches := fetches p + 1\<rparr>"
proof -
  let ?q = "p\<lparr>showClarification := False\<rparr>"
  from assms(2,3) have c: "truthy_string (page_token p)" "\<not> truthy_string (page_error p)"
      "validationErrors st = None \<or> validationErrors st = Some []"
      "showClarification p" "clarification st = Some c"
    by (auto simp: view_ClarificationView_iff)
  have s: "step p e = render ?q" using assms(7) by (auto simp: resumes_def step_def)
  have v: "ProcessingPage_view ?q = ProgressView st"
    using c assms(3) by (simp add: view_ProgressView_iff)
  have q1: "render_once ?q =
      p\<lparr>mounted := Some (stage st), poller := InFlight,
        poll_deps := Some (page_token p, False), fetches := fetches p + 1\<rparr>"
    using assms c
    by (simp add: v effect_defs in_sync_def lit_ready_neq [symmetric])
  have v1: "ProcessingPage_view (render_once ?q) = ClarificationView c"
    unfolding q1 assms(2) [symmetric] by (rule view_cong) simp_all
  have "render_once (render_once ?q) = p\<lparr>fetches := fetches p + 1\<rparr>"
    using v1 unfolding render_once_def [of "render_once ?q"]
    using assms c by (simp add: q1 poll_effect_def in_sync_def)
  then show ?thesis by (simp add: s render_def)
qed

text \<open>
  Every state the page reaches in which it shows the clarification view is such a state;
  and from there on, whatever happens, the page never holds another status and never has
  a request awaited or a timer armed between two events.
\<close>

lemma clarification_view_parked:
  assumes "page_inv p" and "ProcessingPage_view p = ClarificationView c"
  shows "mounted p = None" and "poller p = Idle" and "showClarification p"
    and "\<exists>st. page_status p = Some st \<and> stage st = Some (lit ''needs_clarification'')"
  using assms by (auto simp: page_inv_def view_ClarificationView_iff)

lemma resume_from_clarification_view:
  assumes "p = run (mount tok) es0" and "ProcessingPage_view p = ClarificationView c"
      and "resumes e"
  shows "step p e = p\<lparr>fetches := fetches p + 1\<rparr>"
proof -
  have i: "page_inv p" using assms(1) by (simp add: reachable_inv)
  from clarification_view_parked [OF i assms(2)] obtain st where
    st: "page_status p = Some st" "stage st = Some (lit ''needs_clarification'')"
    and m: "mounted p = None" "poller p = Idle"
    by blast
  from resume_returns_to_clarification [OF page_inv_in_sync [OF i] assms(2) st m assms(3)]
  show ?thesis .
qed

lemma parked_step:
  assumes "parked p"
  shows "parked (step p e) \<and> page_status (step p e) = page_status p"
proof -
  from assms have i: "page_inv p" and idle: "poller p = Idle"
    and v: "(\<exists>c. ProcessingPage_view p = ClarificationView c) \<or> \<not> truthy_string (page_token p)"
    by (simp_all add: parked_def)
  have i': "page_inv (step p e)" using i by (rule step_inv)
  show ?thesis
  proof (cases "resumes e")
    case True
    show ?thesis
    proof (cases "truthy_string (page_token p)")
      case t: True
      with v obtain c where c: "ProcessingPage_view p = ClarificationView c" by blast
      from clarification_view_parked [OF i c] obtain st where
        st: "page_status p = Some st" "stage st = Some (lit ''needs_clarification'')"
        and m: "mounted p = None"
        by blast
      from resume_returns_to_clarification [OF page_inv_in_sync [OF i] c st m idle True]
      have s: "step p e = p\<lparr>fetches := fetches p + 1\<rparr>" .
      with i' idle c show ?thesis by (simp add: parked_def)
    next
      case f: False
      have s: "step p e = render (p\<lparr>showClarification := False\<rparr>)"
        using True by (auto simp: resumes_def step_def)
      from render_idle [of "p\<lparr>showClarification := False\<rparr>"] idle f
      have "poller (step p e) = Idle" by (simp add: s)
      with i' f show ?thesis by (simp add: parked_def s)
    qed
  next
    case False
    from idle_step [OF page_inv_in_sync [OF i] idle False]
    have p': "poller (step p e) = Idle" by simp
    have st: "page_status (step p e) = page_status p"
      using idle by (cases e) (simp_all add: step_def split: view.splits)
    have tok: "\<not> truthy_string (page_token (step p e))" if "\<not> truthy_string (page_token p)"
      using that idle by (cases e) (simp_all add: step_def truthy_string_def split: view.splits)
    have vw: "(\<exists>c. ProcessingPage_view (step p e) = ClarificationView c) \<or>
              \<not> truthy_string (page_token (step p e))"
    proof (cases "truthy_string (page_token p)")
      case f: False
      with tok show ?thesis by simp
    next
      case t: True
      with v obtain c where c: "ProcessingPage_view p = ClarificationView c" by blast
      show ?thesis
      proof (cases "e = Logout")
        case True
        then show ?thesis by (simp add: step_def truthy_string_def)
      next
        case ne: False
        have "step p e = p" using idle False ne c
          by (cases e) (simp_all add: step_def resumes_def)
        with c show ?thesis by auto
      qed
    qed
    from i' p' vw st show ?thesis by (simp add: parked_def)
  qed
qed

lemma parked_run:
  assumes "parked p"
  shows "parked (run p es) \<and> page_status (run p es) = page_status p"
  using assms
proof (induction es arbitrary: p)
  case Nil
  then show ?case by (simp add: run_def)
next
  case (Cons e es)
  from parked_step [OF Cons.prems, of e] Cons.IH [of "step p e"]
  show ?case by (simp add: run_def)
qed

lemma never_resumes:
  assumes "p = run (mount tok) es0" and "ProcessingPage_view p = ClarificationView c"
  shows "page_status (run p es) = page_status p \<and> poller (run p es) = Idle"
proof -
  have i: "page_inv p" using assms(1) by (simp add: reachable_inv)
  from clarification_view_parked [OF i assms(2)] assms(2) i have "parked p"
    by (auto simp: parked_def)
  from parked_run [OF this, of es] show ?thesis by (simp add: parked_def)
qed

text \<open>
  C2 on a run of the page. The page mounts with a token and requests the status; the
  status comes back at \<^verbatim>\<open>needs_clarification\<close> with a clarification payload; the user
  submits answers and the submit succeeds; the status request made at that moment
  resolves at \<^verbatim>\<open>validating_quality\<close>; the timer would fire. At the end the page has
  made two requests in all, holds the first status, not the second, shows the
  clarification again, and has nothing awaited and no timer armed: the polling has not
  resumed.
\<close>

theorem resume_is_lost:
  "run (mount (Some (lit ''tok'')))
     [StatusResolved \<lparr>stage = Some (lit ''needs_clarification''), progress = None, error = None,
        clarification = Some (JObj []), validationErrors = None, validationWarnings = None\<rparr>,
      SubmitResolved True,
      StatusResolved \<lparr>stage = Some (lit ''validating_quality''), progress = None, error = None,
        clarification = None, validationErrors = None, validationWarnings = None\<rparr>,
      TimerFired]
   = \<lparr>page_token = Some (lit ''tok''),
      page_status = Some \<lparr>stage = Some (lit ''needs_clarification''), progress = None,
        error = None, clarification = Some (JObj []), validationErrors = None,
        validationWarnings = None\<rparr>,
      page_error = None, showClarification = True, poller = Idle,
      poll_deps = Some (Some (lit ''tok''), True), mounted = None,
      fetches = 2, completions = 0, errorCallbacks = 0\<rparr>"
  by (simp add: eval_defs)

end
